theory Spec2Isabelle
  imports
    Main
    "HOL-Library.Word"
    "HOL-Library.AList"
    "HOL-Library.Char_ord"
    "HOL-Library.List_Lexorder"
begin

section \<open>PostgresSaver: the checkpoint store of libs/checkpoint-postgres/src/index.ts\<close>

subsection \<open>Values, bytes and text\<close>

text \<open>
  A \<^verbatim>\<open>Uint8Array\<close> is a list of 8-bit words. A JavaScript string is the list of its
  UTF-8 bytes (HOL's \<open>string\<close>), so \<^verbatim>\<open>TextDecoder.decode\<close> and the store's cast of a
  text column to \<^verbatim>\<open>bytea\<close> are byte-wise on well-formed text.
\<close>

type_synonym bytes = "8 word list"

definition decode :: "bytes \<Rightarrow> string" where
  "decode bs = map (\<lambda>b. char_of (unat b)) bs"

definition encode :: "string \<Rightarrow> bytes" where
  "encode s = map (\<lambda>c. of_char c) s"

text \<open>
  The values of type \<^verbatim>\<open>any\<close> and \<^verbatim>\<open>unknown\<close>. Numbers are the integers; an
  object is the list of its own properties in property order, with distinct keys.
  \<open>JInherited k\<close> is the member that \<^verbatim>\<open>Object.prototype\<close> has under the name \<open>k\<close> (a
  built-in function such as \<^verbatim>\<open>Object\<close> for \<^verbatim>\<open>constructor\<close>, the prototype itself for
  \<^verbatim>\<open>__proto__\<close>).
\<close>

datatype jsval =
    JUndefined
  | JNull
  | JBool bool
  | JNum int
  | JStr string
  | JBytes bytes
  | JArr "jsval list"
  | JObj "(string \<times> jsval) list"
  | JInherited string

type_synonym obj = "(string \<times> jsval) list"

text \<open>
  \<^verbatim>\<open>o.k\<close> for the fixed names the code reads (\<^verbatim>\<open>thread_id\<close>, \<^verbatim>\<open>checkpoint_ns\<close>,
  \<^verbatim>\<open>checkpoint_id\<close>, \<^verbatim>\<open>id\<close>, \<^verbatim>\<open>channel_values\<close>), none of which \<^verbatim>\<open>Object.prototype\<close>
  has: a missing property reads as \<^verbatim>\<open>undefined\<close>.
\<close>

definition get_prop :: "obj \<Rightarrow> string \<Rightarrow> jsval" where
  "get_prop ob k = (case map_of ob k of None \<Rightarrow> JUndefined | Some v \<Rightarrow> v)"

text \<open>
  The objects of the program are plain objects: they inherit from \<^verbatim>\<open>Object.prototype\<close>,
  whose property names are these. For a computed name \<open>k\<close>, both \<^verbatim>\<open>k in o\<close> and
  \<^verbatim>\<open>o[k]\<close> look at the own properties of \<open>o\<close> first and at the prototype next.
\<close>

definition object_prototype :: "string list" where
  "object_prototype =
     [''constructor'', ''hasOwnProperty'', ''isPrototypeOf'', ''propertyIsEnumerable'',
      ''toLocaleString'', ''toString'', ''valueOf'', ''__proto__'', ''__defineGetter__'',
      ''__defineSetter__'', ''__lookupGetter__'', ''__lookupSetter__'']"

definition own_property :: "obj \<Rightarrow> string \<Rightarrow> bool" where
  "own_property ob k = (k \<in> set (map fst ob))"

definition has_property :: "obj \<Rightarrow> string \<Rightarrow> bool" where
  "has_property ob k = (own_property ob k \<or> k \<in> set object_prototype)"

definition get_member :: "obj \<Rightarrow> string \<Rightarrow> jsval" where
  "get_member ob k =
     (case map_of ob k of
        Some v \<Rightarrow> v
      | None \<Rightarrow> if k \<in> set object_prototype then JInherited k else JUndefined)"

text \<open>What \<^verbatim>\<open>if (x)\<close> and \<^verbatim>\<open>x ? a : b\<close> test.\<close>

fun truthy :: "jsval \<Rightarrow> bool" where
  "truthy JUndefined = False"
| "truthy JNull = False"
| "truthy (JBool b) = b"
| "truthy (JNum n) = (n \<noteq> 0)"
| "truthy (JStr s) = (s \<noteq> [])"
| "truthy (JBytes b) = True"
| "truthy (JArr xs) = True"
| "truthy (JObj ob) = True"
| "truthy (JInherited k) = True"

text \<open>\<^verbatim>\<open>Object.fromEntries\<close>: a later entry overwrites an earlier one with the same key.\<close>

definition fromEntries :: "(string \<times> jsval) list \<Rightarrow> obj" where
  "fromEntries es = foldl (\<lambda>ob (k, v). AList.update k v ob) [] es"

text \<open>Decimal printing of a number, as string concatenation and \<^verbatim>\<open>toString\<close> do it.\<close>

definition digit_char :: "nat \<Rightarrow> char" where
  "digit_char d =
     (if d = 0 then CHR ''0'' else if d = 1 then CHR ''1'' else if d = 2 then CHR ''2''
      else if d = 3 then CHR ''3'' else if d = 4 then CHR ''4'' else if d = 5 then CHR ''5''
      else if d = 6 then CHR ''6'' else if d = 7 then CHR ''7'' else if d = 8 then CHR ''8''
      else CHR ''9'')"

fun string_of_nat :: "nat \<Rightarrow> string" where
  "string_of_nat n =
     (if n < 10 then [digit_char n] else string_of_nat (n div 10) @ [digit_char (n mod 10)])"

declare string_of_nat.simps [simp del]

definition string_of_int :: "int \<Rightarrow> string" where
  "string_of_int i = (if i < 0 then ''-'' @ string_of_nat (nat (- i)) else string_of_nat (nat i))"

text \<open>\<^verbatim>\<open>ChannelVersions = Record<string, number | string>\<close>, in property order.\<close>

datatype ChannelVersion = VNum int | VStr string

fun toString :: "ChannelVersion \<Rightarrow> string" where
  "toString (VNum n) = string_of_int n"
| "toString (VStr s) = s"

type_synonym ChannelVersions = "(string \<times> ChannelVersion) list"

text \<open>\<^verbatim>\<open>Array.prototype.join\<close>.\<close>

fun join :: "string \<Rightarrow> string list \<Rightarrow> string" where
  "join sep [] = []"
| "join sep [x] = x"
| "join sep (x # y # ys) = x @ sep @ join sep (y # ys)"

text \<open>\<^verbatim>\<open>String.prototype.str_includes\<close>.\<close>

fun str_includes :: "string \<Rightarrow> string \<Rightarrow> bool" where
  "str_includes [] sub = (sub = [])"
| "str_includes (c # cs) sub = (take (length sub) (c # cs) = sub \<or> str_includes cs sub)"

subsection \<open>The serializer\<close>

text \<open>
  \<^verbatim>\<open>SerializerProtocol\<close>: \<^verbatim>\<open>dumpsTyped\<close> gives a type tag and bytes, \<^verbatim>\<open>loadsTyped\<close>
  reads them back. The data handed to \<^verbatim>\<open>loadsTyped\<close> is a cell of a result row, which
  is \<^verbatim>\<open>null\<close> (\<open>None\<close>) where the store holds no bytes.
\<close>

record serde =
  dumpsTyped :: "jsval \<Rightarrow> string \<times> bytes"
  loadsTyped :: "string \<Rightarrow> bytes option \<Rightarrow> jsval"

subsection \<open>The row codec\<close>

definition loadBlobs :: "serde \<Rightarrow> (bytes \<times> bytes \<times> bytes option) list option \<Rightarrow> obj" where
  "loadBlobs sd blobValues =
     (case blobValues of
        None \<Rightarrow> []
      | Some bs \<Rightarrow>
          if length bs = 0 then []
          else fromEntries
                 (map (\<lambda>(k, t, v). (decode k, loadsTyped sd (decode t) v))
                    (filter (\<lambda>(k, t, v). decode t \<noteq> ''empty'') bs)))"

definition loadCheckpoint ::
  "serde \<Rightarrow> obj \<Rightarrow> (bytes \<times> bytes \<times> bytes option) list option \<Rightarrow> (bytes \<times> bytes) list option \<Rightarrow> obj"
where
  "loadCheckpoint sd checkpoint channelValues pendingSends =
     AList.update ''channel_values'' (JObj (loadBlobs sd channelValues))
       (AList.update ''pending_sends''
          (JArr (map (\<lambda>(c, b). loadsTyped sd (decode c) (Some b))
                   (case pendingSends of None \<Rightarrow> [] | Some ps \<Rightarrow> ps)))
          checkpoint)"

definition loadMetadata :: "serde \<Rightarrow> obj \<Rightarrow> jsval" where
  "loadMetadata sd metadata =
     (case dumpsTyped sd (JObj metadata) of (type, dumpedValue) \<Rightarrow>
        loadsTyped sd type (Some dumpedValue))"

definition loadWrites ::
  "serde \<Rightarrow> (bytes \<times> bytes \<times> bytes \<times> bytes) list option \<Rightarrow> (string \<times> string \<times> jsval) list"
where
  "loadWrites sd writes =
     (case writes of
        None \<Rightarrow> []
      | Some ws \<Rightarrow>
          map (\<lambda>(tid, channel, t, v). (decode tid, decode channel, loadsTyped sd (decode t) (Some v))) ws)"

definition dumpBlobs ::
  "serde \<Rightarrow> jsval \<Rightarrow> jsval \<Rightarrow> obj \<Rightarrow> ChannelVersions option \<Rightarrow> jsval list list"
where
  "dumpBlobs sd threadId checkpointNs values versions =
     (case versions of
        None \<Rightarrow> []
      | Some vs \<Rightarrow>
          map (\<lambda>(k, ver).
                 case (if has_property values k
                       then (case dumpsTyped sd (get_member values k) of (t, b) \<Rightarrow> (t, Some b))
                       else (''empty'', None)) of
                   (type, val) \<Rightarrow>
                     [threadId, checkpointNs, JStr k, JStr (toString ver), JStr type,
                      (case val of Some b \<Rightarrow> JBytes b | None \<Rightarrow> JUndefined)])
              vs)"

definition dumpCheckpoint :: "serde \<Rightarrow> obj \<Rightarrow> string \<times> bytes" where
  "dumpCheckpoint sd checkpoint =
     dumpsTyped sd (JObj (AList.update ''pending_sends'' (JArr []) checkpoint))"

definition dumpMetadata :: "serde \<Rightarrow> obj \<Rightarrow> string" where
  "dumpMetadata sd metadata =
     (case dumpsTyped sd (JObj metadata) of (type, serializedMetadata) \<Rightarrow>
        filter (\<lambda>c. c \<noteq> CHR 0x00) (decode serializedMetadata))"

text \<open>
  \<^verbatim>\<open>WRITES_IDX_MAP\<close> is imported from the checkpoint base package; the codec and the
  store take its entries as their first argument, a map from channel names to indices.
  The table is a plain object (\<^verbatim>\<open>Record<string, number>\<close>) with these entries as its own
  properties: \<^verbatim>\<open>channel in WRITES_IDX_MAP\<close> and \<^verbatim>\<open>WRITES_IDX_MAP[channel]\<close> also find the
  names of \<^verbatim>\<open>Object.prototype\<close>.
\<close>

definition table_in :: "(string \<rightharpoonup> int) \<Rightarrow> string \<Rightarrow> bool" where
  "table_in WRITES_IDX_MAP k = (WRITES_IDX_MAP k \<noteq> None \<or> k \<in> set object_prototype)"

definition table_get :: "(string \<rightharpoonup> int) \<Rightarrow> string \<Rightarrow> jsval" where
  "table_get WRITES_IDX_MAP k =
     (case WRITES_IDX_MAP k of
        Some r \<Rightarrow> JNum r
      | None \<Rightarrow> if k \<in> set object_prototype then JInherited k else JUndefined)"

definition dumpWrites ::
  "(string \<rightharpoonup> int) \<Rightarrow> serde \<Rightarrow> jsval \<Rightarrow> jsval \<Rightarrow> jsval \<Rightarrow> string \<Rightarrow> (string \<times> jsval) list
   \<Rightarrow> jsval list list"
where
  "dumpWrites WRITES_IDX_MAP sd threadId checkpointNs checkpointId taskId writes =
     map (\<lambda>(idx, (channel, val)).
            case dumpsTyped sd val of (type, serializedValue) \<Rightarrow>
              [threadId, checkpointNs, checkpointId, JStr taskId,
               (if table_get WRITES_IDX_MAP channel \<noteq> JUndefined
                then table_get WRITES_IDX_MAP channel else JNum (int idx)),
               JStr channel, JStr type, JBytes serializedValue])
         (enumerate 0 writes)"

text \<open>
  Modelled from the spec: the blob statements of sql.js and the SQL engine are not in
  src/. A channel blob is \<open>(thread_id, checkpoint_ns, channel, version, type_tag, bytes|null)\<close>;
  the select hands a blob back to \<open>loadBlobs\<close> as the triple of its channel and type tag,
  both as bytes, and its bytes, \<^verbatim>\<open>null\<close> where the row was written without any.
\<close>

definition str_of :: "jsval \<Rightarrow> string" where
  "str_of v = (case v of JStr s \<Rightarrow> s | _ \<Rightarrow> [])"

definition bytes_of :: "jsval \<Rightarrow> bytes option" where
  "bytes_of v = (case v of JBytes b \<Rightarrow> Some b | _ \<Rightarrow> None)"

definition blob_cells :: "jsval list \<Rightarrow> bytes \<times> bytes \<times> bytes option" where
  "blob_cells row = (encode (str_of (row ! 2)), encode (str_of (row ! 4)), bytes_of (row ! 5))"

subsection \<open>The query builder\<close>

record RunnableConfig =
  configurable :: "obj option"

text \<open>
  One step of the builder: \<^verbatim>\<open>wheres.push(pred + (paramValues.length + 1))\<close> followed by
  \<^verbatim>\<open>paramValues.push(v)\<close>.
\<close>

definition push_where :: "string \<Rightarrow> jsval \<Rightarrow> string list \<times> jsval list \<Rightarrow> string list \<times> jsval list" where
  "push_where pred v st =
     (case st of (wheres, paramValues) \<Rightarrow>
        (wheres @ [pred @ string_of_nat (length paramValues + 1)], paramValues @ [v]))"

text \<open>\<^verbatim>\<open>JSON.stringify\<close> is a built-in; \<open>searchWhere\<close> takes it as its first argument.\<close>

definition searchWhere ::
  "(jsval \<Rightarrow> string) \<Rightarrow> RunnableConfig option \<Rightarrow> obj option \<Rightarrow> RunnableConfig option
   \<Rightarrow> string \<times> jsval list"
where
  "searchWhere JSON_stringify config filt before =
     (let st0 = ([], []);
          st1 = (case (case config of None \<Rightarrow> None | Some c \<Rightarrow> configurable c) of
                   None \<Rightarrow> st0
                 | Some cf \<Rightarrow>
                     let sa = push_where ''thread_id = $'' (get_prop cf ''thread_id'') st0;
                         checkpointNs = get_prop cf ''checkpoint_ns'';
                         sb = (if checkpointNs \<noteq> JUndefined
                               then push_where ''checkpoint_ns = $'' checkpointNs sa else sa);
                         checkpointId = get_prop cf ''checkpoint_id''
                     in if checkpointId \<noteq> JUndefined
                        then push_where ''checkpoint_id = $'' checkpointId sb else sb);
          st2 = (case filt of
                   None \<Rightarrow> st1
                 | Some f \<Rightarrow>
                     if length (map fst f) > 0
                     then push_where ''metadata @> $'' (JStr (JSON_stringify (JObj f))) st1
                     else st1);
          beforeId = (case before of
                        None \<Rightarrow> JUndefined
                      | Some b \<Rightarrow> (case configurable b of
                                    None \<Rightarrow> JUndefined
                                  | Some bc \<Rightarrow> get_prop bc ''checkpoint_id''));
          st3 = (if beforeId \<noteq> JUndefined then push_where ''checkpoint_id < $'' beforeId st2 else st2)
      in case st3 of (wheres, paramValues) \<Rightarrow>
           (if length wheres > 0 then ''WHERE '' @ join '' AND '' wheres else '''', paramValues))"

text \<open>
  The rules of the query builder as the specification words them: the clauses that
  apply, in the fixed order thread, namespace, checkpoint id, metadata containment,
  before-cursor, each with its argument; and their numbering from left to right.
\<close>

definition search_clauses ::
  "(jsval \<Rightarrow> string) \<Rightarrow> RunnableConfig option \<Rightarrow> obj option \<Rightarrow> RunnableConfig option
   \<Rightarrow> (string \<times> jsval) list"
where
  "search_clauses JSON_stringify config filt before =
     (case (case config of None \<Rightarrow> None | Some c \<Rightarrow> configurable c) of
        None \<Rightarrow> []
      | Some cf \<Rightarrow>
          [(''thread_id = '', get_prop cf ''thread_id'')]
          @ (if get_prop cf ''checkpoint_ns'' \<noteq> JUndefined
             then [(''checkpoint_ns = '', get_prop cf ''checkpoint_ns'')] else [])
          @ (if get_prop cf ''checkpoint_id'' \<noteq> JUndefined
             then [(''checkpoint_id = '', get_prop cf ''checkpoint_id'')] else []))
     @ (case filt of
          None \<Rightarrow> []
        | Some f \<Rightarrow> if f \<noteq> [] then [(''metadata @> '', JStr (JSON_stringify (JObj f)))] else [])
     @ (case before of
          None \<Rightarrow> []
        | Some b \<Rightarrow>
            (case configurable b of
               None \<Rightarrow> []
             | Some bc \<Rightarrow>
                 if get_prop bc ''checkpoint_id'' \<noteq> JUndefined
                 then [(''checkpoint_id < '', get_prop bc ''checkpoint_id'')] else []))"

definition numbered :: "(string \<times> jsval) list \<Rightarrow> string list" where
  "numbered cs = map (\<lambda>(i, (t, v)). t @ ''$'' @ string_of_nat (i + 1)) (enumerate 0 cs)"

definition where_state :: "(string \<times> jsval) list \<Rightarrow> string list \<times> jsval list" where
  "where_state cs = (numbered cs, map snd cs)"

text \<open>A small serializer for the examples: a number goes to one byte and back.\<close>

definition num_serde :: serde where
  "num_serde =
     \<lparr>dumpsTyped = (\<lambda>v. case v of JNum n \<Rightarrow> (''num'', [word_of_int n]) | _ \<Rightarrow> (''null'', [])),
      loadsTyped = (\<lambda>t b. case b of Some [w] \<Rightarrow> if t = ''num'' then JNum (uint w) else JNull | _ \<Rightarrow> JNull)\<rparr>"

subsection \<open>The store and its failures\<close>

text \<open>
  A thrown \<^verbatim>\<open>Error\<close> carries its message; a function that can throw returns
  \<open>error + 'a\<close>, with \<open>Inl\<close> the error.
\<close>

datatype error = Error (message: string)

text \<open>
  The store is reached through a connection pool. What a run of the saver does to the
  store is the list of its calls, in order: a connection acquired, a statement sent
  with its values, the connection released. A statement's text is a value, since
  \<^verbatim>\<open>MIGRATIONS[v]\<close> is \<^verbatim>\<open>undefined\<close> outside the list. The pool says whether
  \<^verbatim>\<open>connect\<close> rejects, and what the store answers to a statement after the calls made
  so far: an error or the result rows.
\<close>

datatype event = Connect | Query jsval "jsval list" | Release

record 'r pool =
  connect :: "error option"
  respond :: "event list \<Rightarrow> jsval \<Rightarrow> jsval list \<Rightarrow> error + 'r list"

text \<open>
  \<^verbatim>\<open>client.query(text, values)\<close> and \<^verbatim>\<open>pool.query(text, values)\<close>: the answer, and the
  call added to the calls made.
\<close>

definition client_query ::
  "('r, 'x) pool_scheme \<Rightarrow> jsval \<Rightarrow> jsval list \<Rightarrow> event list \<Rightarrow> (error + 'r list) \<times> event list"
where
  "client_query p text vals tr = (respond p tr text vals, tr @ [Query text vals])"

text \<open>
  \<^verbatim>\<open>await\<close> in sequence: the first error ends the block.
\<close>

definition then_do ::
  "(error + 'a) \<times> event list \<Rightarrow> ('a \<Rightarrow> event list \<Rightarrow> (error + 'b) \<times> event list)
   \<Rightarrow> (error + 'b) \<times> event list"
where
  "then_do r f = (case r of (Inl e, tr) \<Rightarrow> (Inl e, tr) | (Inr x, tr) \<Rightarrow> f x tr)"

text \<open>
  The handlers shared by \<^verbatim>\<open>setup\<close>, \<^verbatim>\<open>put\<close> and \<^verbatim>\<open>putWrites\<close>:
  \<^verbatim>\<open>catch (e) { await client.query("ROLLBACK"); throw e; } finally { client.release(); }\<close>.
  An error of the rollback itself replaces \<open>e\<close>.
\<close>

definition rollback_release ::
  "('r, 'x) pool_scheme \<Rightarrow> (error + 'a) \<times> event list \<Rightarrow> (error + 'a) \<times> event list"
where
  "rollback_release p r =
     (case r of
        (Inr x, tr) \<Rightarrow> (Inr x, tr @ [Release])
      | (Inl e, tr) \<Rightarrow>
          (case client_query p (JStr ''ROLLBACK'') [] tr of
             (Inl e', tr') \<Rightarrow> (Inl e', tr' @ [Release])
           | (Inr rows, tr') \<Rightarrow> (Inl e, tr' @ [Release])))"

subsection \<open>Schema migrations\<close>

text \<open>
  A row of the ledger \<^verbatim>\<open>checkpoint_migrations\<close>, with its column \<^verbatim>\<open>v\<close>. \<^verbatim>\<open>MIGRATIONS\<close> is imported from
  migrations.js; \<open>saver_setup\<close> (the method \<^verbatim>\<open>setup\<close>) takes the list as an argument.
\<close>

record migration_row =
  row_v :: int

definition js_nth :: "string list \<Rightarrow> int \<Rightarrow> jsval" where
  "js_nth xs i = (if 0 \<le> i \<and> i < int (length xs) then JStr (xs ! nat i) else JUndefined)"

text \<open>
  The inner \<^verbatim>\<open>try\<close> of \<^verbatim>\<open>setup\<close>: the version read from the ledger.
\<close>

definition read_version :: "(migration_row, 'x) pool_scheme \<Rightarrow> event list \<Rightarrow> (error + int) \<times> event list" where
  \<open>read_version p tr =
     (case client_query p (JStr ''SELECT v FROM checkpoint_migrations ORDER BY v DESC LIMIT 1'') [] tr of
        (Inr rows, tr') \<Rightarrow> (Inr (if length rows > 0 then row_v (rows ! 0) else - 1), tr')
      | (Inl e, tr') \<Rightarrow>
          (if str_includes (message e) ''relation "checkpoint_migrations" does not exist''
           then Inr (- 1) else Inl e, tr'))\<close>

text \<open>
  The loop \<^verbatim>\<open>for (let v = version + 1; v < MIGRATIONS.length; v++)\<close>.
\<close>

function run_migrations ::
  "(migration_row, 'x) pool_scheme \<Rightarrow> string list \<Rightarrow> int \<Rightarrow> event list \<Rightarrow> (error + unit) \<times> event list"
where
  "run_migrations p MIGRATIONS i tr =
     (if i < int (length MIGRATIONS)
      then then_do (client_query p (js_nth MIGRATIONS i) [] tr) (\<lambda>_ tr.
           then_do (client_query p (JStr ''INSERT INTO checkpoint_migrations (v) VALUES ($1)'') [JNum i] tr) (\<lambda>_ tr.
           run_migrations p MIGRATIONS (i + 1) tr))
      else (Inr (), tr))"
  by pat_completeness auto
termination
  by (relation "measure (\<lambda>(p, M, i, tr). nat (int (length M) - i))") auto

declare run_migrations.simps [simp del]

definition saver_setup ::
  "(migration_row, 'x) pool_scheme \<Rightarrow> string list \<Rightarrow> (error + unit) \<times> event list"
where
  "saver_setup p MIGRATIONS =
     (case connect p of
        Some e \<Rightarrow> (Inl e, [Connect])
      | None \<Rightarrow>
          rollback_release p
            (then_do (client_query p (JStr ''BEGIN'') [] [Connect]) (\<lambda>_ tr.
             then_do (read_version p tr) (\<lambda>version tr.
             then_do (run_migrations p MIGRATIONS (version + 1) tr) (\<lambda>_ tr.
             then_do (client_query p (JStr ''COMMIT'') [] tr) (\<lambda>_ tr.
             (Inr (), tr)))))))"

subsection \<open>The checkpoint store\<close>

text \<open>
  The statements imported from sql.js are arguments of the store's operations.
\<close>

record sql =
  SELECT_SQL :: string
  UPSERT_CHECKPOINT_BLOBS_SQL :: string
  UPSERT_CHECKPOINT_WRITES_SQL :: string
  UPSERT_CHECKPOINTS_SQL :: string
  INSERT_CHECKPOINT_WRITES_SQL :: string

text \<open>
  \<^verbatim>\<open>CheckpointRow\<close> and \<^verbatim>\<open>CheckpointTuple\<close>; the fields carry the prefixes \<open>row_\<close> and
  \<open>tuple_\<close>. A checkpoint and its metadata are objects.
\<close>

record CheckpointRow =
  row_checkpoint :: obj
  row_metadata :: obj
  row_parent_checkpoint_id :: "string option"
  row_thread_id :: string
  row_checkpoint_id :: string
  row_checkpoint_ns :: "string option"
  row_channel_values :: "(bytes \<times> bytes \<times> bytes option) list option"
  row_pending_writes :: "(bytes \<times> bytes \<times> bytes \<times> bytes) list option"
  row_pending_sends :: "(bytes \<times> bytes) list option"

record CheckpointTuple =
  tuple_config :: RunnableConfig
  tuple_checkpoint :: obj
  tuple_metadata :: jsval
  tuple_parentConfig :: "RunnableConfig option"
  tuple_pendingWrites :: "(string \<times> string \<times> jsval) list"

definition getTuple ::
  "sql \<Rightarrow> (CheckpointRow, 'x) pool_scheme \<Rightarrow> serde \<Rightarrow> RunnableConfig
   \<Rightarrow> (error + CheckpointTuple option) \<times> event list"
where
  "getTuple q p sd config =
     (let cf = (case configurable config of None \<Rightarrow> [] | Some c \<Rightarrow> c);
          thread_id = get_prop cf ''thread_id'';
          checkpoint_ns = (if get_prop cf ''checkpoint_ns'' = JUndefined then JStr ''''
                           else get_prop cf ''checkpoint_ns'');
          checkpoint_id = get_prop cf ''checkpoint_id'';
          (wher, args) =
            (if truthy checkpoint_id
             then (''WHERE thread_id = $1 AND checkpoint_ns = $2 AND checkpoint_id = $3'',
                   [thread_id, checkpoint_ns, checkpoint_id])
             else (''WHERE thread_id = $1 AND checkpoint_ns = $2 ORDER BY checkpoint_id DESC LIMIT 1'',
                   [thread_id, checkpoint_ns]))
      in case client_query p (JStr (SELECT_SQL q @ wher)) args [] of
           (Inl e, tr) \<Rightarrow> (Inl e, tr)
         | (Inr rows, tr) \<Rightarrow>
             (case rows of
                [] \<Rightarrow> (Inr None, tr)
              | row # _ \<Rightarrow>
                  (Inr (Some
                     \<lparr>tuple_config =
                        \<lparr>configurable = Some [(''thread_id'', thread_id),
                                               (''checkpoint_ns'', checkpoint_ns),
                                               (''checkpoint_id'', JStr (row_checkpoint_id row))]\<rparr>,
                      tuple_checkpoint =
                        loadCheckpoint sd (row_checkpoint row) (row_channel_values row)
                          (row_pending_sends row),
                      tuple_metadata = loadMetadata sd (row_metadata row),
                      tuple_parentConfig =
                        (case row_parent_checkpoint_id row of
                           None \<Rightarrow> None
                         | Some parent \<Rightarrow>
                             if parent \<noteq> []
                             then Some \<lparr>configurable = Some [(''thread_id'', thread_id),
                                                              (''checkpoint_ns'', checkpoint_ns),
                                                              (''checkpoint_id'', JStr parent)]\<rparr>
                             else None),
                      tuple_pendingWrites = loadWrites sd (row_pending_writes row)\<rparr>),
                   tr)))"

text \<open>
  \<^verbatim>\<open>Checkpoint.channel_values\<close> is declared \<^verbatim>\<open>Record<string, unknown>\<close>: \<open>record_of\<close>
  reads the properties of that object.
\<close>

definition record_of :: "jsval \<Rightarrow> obj" where
  "record_of x = (case x of JObj ob \<Rightarrow> ob | _ \<Rightarrow> [])"

text \<open>
  The loop \<^verbatim>\<open>for (const serializedBlob of serializedBlobs)\<close> of \<^verbatim>\<open>put\<close>.
\<close>

fun upsert_blobs ::
  "('r, 'x) pool_scheme \<Rightarrow> string \<Rightarrow> jsval list list \<Rightarrow> event list \<Rightarrow> (error + unit) \<times> event list"
where
  "upsert_blobs p text [] tr = (Inr (), tr)"
| "upsert_blobs p text (serializedBlob # rest) tr =
     then_do (client_query p (JStr text) serializedBlob tr) (\<lambda>_ tr. upsert_blobs p text rest tr)"

definition put ::
  "sql \<Rightarrow> ('r, 'x) pool_scheme \<Rightarrow> serde \<Rightarrow> RunnableConfig \<Rightarrow> obj \<Rightarrow> obj \<Rightarrow> ChannelVersions option
   \<Rightarrow> (error + RunnableConfig) \<times> event list"
where
  \<open>put q p sd config checkpoint metadata newVersions =
     (case configurable config of
        None \<Rightarrow> (Inl (Error ''Missing "configurable" field in "config" param''), [])
      | Some cf \<Rightarrow>
          let thread_id = get_prop cf ''thread_id'';
              checkpoint_ns = (if get_prop cf ''checkpoint_ns'' = JUndefined then JStr ''''
                               else get_prop cf ''checkpoint_ns'');
              checkpoint_id = get_prop cf ''checkpoint_id'';
              nextConfig = \<lparr>configurable = Some [(''thread_id'', thread_id),
                                                   (''checkpoint_ns'', checkpoint_ns),
                                                   (''checkpoint_id'', get_prop checkpoint ''id'')]\<rparr>
          in case connect p of
               Some e \<Rightarrow> (Inl e, [Connect])
             | None \<Rightarrow>
                 let serializedCheckpoint = snd (dumpCheckpoint sd checkpoint)
                 in rollback_release p
                      (then_do (client_query p (JStr ''BEGIN'') [] [Connect]) (\<lambda>_ tr.
                       then_do (upsert_blobs p (UPSERT_CHECKPOINT_BLOBS_SQL q)
                                  (dumpBlobs sd thread_id checkpoint_ns
                                     (record_of (get_prop checkpoint ''channel_values'')) newVersions)
                                  tr) (\<lambda>_ tr.
                       then_do (client_query p (JStr (UPSERT_CHECKPOINTS_SQL q))
                                  [thread_id, checkpoint_ns, get_prop checkpoint ''id'', checkpoint_id,
                                   JBytes serializedCheckpoint, JStr (dumpMetadata sd metadata)]
                                  tr) (\<lambda>_ tr.
                       then_do (client_query p (JStr ''COMMIT'') [] tr) (\<lambda>_ tr.
                       (Inr nextConfig, tr)))))))\<close>

text \<open>
  The statement \<^verbatim>\<open>putWrites\<close> chooses (its constant \<^verbatim>\<open>query\<close>).
\<close>

definition putWrites_query :: "sql \<Rightarrow> (string \<rightharpoonup> int) \<Rightarrow> (string \<times> jsval) list \<Rightarrow> string" where
  "putWrites_query q WRITES_IDX_MAP writes =
     (if list_all (\<lambda>w. table_in WRITES_IDX_MAP (fst w)) writes
      then UPSERT_CHECKPOINT_WRITES_SQL q
      else INSERT_CHECKPOINT_WRITES_SQL q)"

text \<open>
  \<^verbatim>\<open>config.configurable?.k\<close>.
\<close>

definition opt_prop :: "obj option \<Rightarrow> string \<Rightarrow> jsval" where
  "opt_prop c k = (case c of None \<Rightarrow> JUndefined | Some cf \<Rightarrow> get_prop cf k)"

definition putWrites ::
  "sql \<Rightarrow> (string \<rightharpoonup> int) \<Rightarrow> ('r, 'x) pool_scheme \<Rightarrow> serde \<Rightarrow> RunnableConfig
   \<Rightarrow> (string \<times> jsval) list \<Rightarrow> string \<Rightarrow> (error + unit) \<times> event list"
where
  "putWrites q WRITES_IDX_MAP p sd config writes taskId =
     (let query = putWrites_query q WRITES_IDX_MAP writes
      in case connect p of
           Some e \<Rightarrow> (Inl e, [Connect])
         | None \<Rightarrow>
             rollback_release p
               (then_do (client_query p (JStr ''BEGIN'') [] [Connect]) (\<lambda>_ tr.
                then_do (client_query p (JStr query)
                           (map JArr
                              (dumpWrites WRITES_IDX_MAP sd
                                 (opt_prop (configurable config) ''thread_id'')
                                 (opt_prop (configurable config) ''checkpoint_ns'')
                                 (opt_prop (configurable config) ''checkpoint_id'')
                                 taskId writes))
                           tr) (\<lambda>_ tr.
                then_do (client_query p (JStr ''COMMIT'') [] tr) (\<lambda>_ tr.
                (Inr (), tr))))))"

subsection \<open>A store of checkpoint rows\<close>

text \<open>
  Modelled from the spec: the SQL engine and the text of \<^verbatim>\<open>SELECT_SQL\<close> (sql.js) are
  not in src/. The store holds checkpoint rows keyed by
  \<open>(thread_id, checkpoint_ns, checkpoint_id)\<close>; it answers the two point lookups of
  \<open>getTuple\<close> by the rows whose columns equal the arguments (a \<^verbatim>\<open>NULL\<close> column or a
  non-text argument equals nothing), the second one ordered by \<open>checkpoint_id\<close>
  descending, in the lexical order of strings, and cut to one row.
\<close>

definition sql_eq :: "string option \<Rightarrow> jsval \<Rightarrow> bool" where
  "sql_eq col arg = (case col of None \<Rightarrow> False | Some c \<Rightarrow> arg = JStr c)"

definition select_rows :: "CheckpointRow list \<Rightarrow> string \<Rightarrow> jsval list \<Rightarrow> CheckpointRow list" where
  "select_rows T wher args =
     (if wher = ''WHERE thread_id = $1 AND checkpoint_ns = $2 AND checkpoint_id = $3''
      then filter (\<lambda>r. args ! 0 = JStr (row_thread_id r) \<and> sql_eq (row_checkpoint_ns r) (args ! 1)
                        \<and> args ! 2 = JStr (row_checkpoint_id r)) T
      else if wher = ''WHERE thread_id = $1 AND checkpoint_ns = $2 ORDER BY checkpoint_id DESC LIMIT 1''
      then take 1 (rev (sort_key row_checkpoint_id
                     (filter (\<lambda>r. args ! 0 = JStr (row_thread_id r)
                                   \<and> sql_eq (row_checkpoint_ns r) (args ! 1)) T)))
      else [])"

definition table_pool :: "sql \<Rightarrow> CheckpointRow list \<Rightarrow> CheckpointRow pool" where
  "table_pool q T =
     \<lparr>connect = None,
      respond = (\<lambda>tr text args.
        if take (length (SELECT_SQL q)) (str_of text) = SELECT_SQL q
        then Inr (select_rows T (drop (length (SELECT_SQL q)) (str_of text)) args)
        else Inr [])\<rparr>"

text \<open>
  A reserved-name table, statements and rows for the examples.
\<close>

definition example_table :: "string \<rightharpoonup> int" where
  "example_table =
     [''__error__'' \<mapsto> - 1, ''__scheduled__'' \<mapsto> - 2, ''__interrupt__'' \<mapsto> - 3,
      ''__resume__'' \<mapsto> - 4]"

definition example_sql :: sql where
  "example_sql =
     \<lparr>SELECT_SQL = ''SELECT * FROM checkpoints '',
      UPSERT_CHECKPOINT_BLOBS_SQL = ''INSERT INTO checkpoint_blobs ... ON CONFLICT DO UPDATE'',
      UPSERT_CHECKPOINT_WRITES_SQL = ''INSERT INTO checkpoint_writes ... ON CONFLICT DO UPDATE'',
      UPSERT_CHECKPOINTS_SQL = ''INSERT INTO checkpoints ... ON CONFLICT DO UPDATE'',
      INSERT_CHECKPOINT_WRITES_SQL = ''INSERT INTO checkpoint_writes ... ON CONFLICT DO NOTHING''\<rparr>"

definition example_row1 :: CheckpointRow where
  "example_row1 = \<lparr>row_checkpoint = [(''id'', JStr ''c1'')], row_metadata = [], row_parent_checkpoint_id = None,
         row_thread_id = ''t1'', row_checkpoint_id = ''c1'', row_checkpoint_ns = Some '''',
         row_channel_values = None, row_pending_writes = None, row_pending_sends = None\<rparr>"

definition example_row2 :: CheckpointRow where
  "example_row2 = \<lparr>row_checkpoint = [(''id'', JStr ''c2'')], row_metadata = [], row_parent_checkpoint_id = Some ''c1'',
         row_thread_id = ''t1'', row_checkpoint_id = ''c2'', row_checkpoint_ns = Some '''',
         row_channel_values = None, row_pending_writes = None, row_pending_sends = None\<rparr>"

subsection \<open>Scripts of statements\<close>

text \<open>
  To state what \<open>saver_setup\<close> sends: a script is a list of statements with their
  values; \<open>run_script\<close> sends them one after the other and stops at the first error.
  \<open>setup_script\<close> is the whole transaction of \<^verbatim>\<open>setup\<close> for a ledger at \<open>version\<close>,
  \<open>ledger_version\<close> the version the store reports when asked inside the transaction, and
  \<open>try_setup\<close> the body of the outer \<^verbatim>\<open>try\<close>.
\<close>

type_synonym stmt = "jsval \<times> jsval list"

definition issued :: "stmt list \<Rightarrow> event list" where
  "issued qs = map (\<lambda>(t, a). Query t a) qs"

fun run_script ::
  "('r, 'x) pool_scheme \<Rightarrow> stmt list \<Rightarrow> event list \<Rightarrow> (error + unit) \<times> event list"
where
  "run_script p [] tr = (Inr (), tr)"
| "run_script p (q # qs) tr =
     then_do (client_query p (fst q) (snd q) tr) (\<lambda>_ tr. run_script p qs tr)"

definition migration_steps :: "string list \<Rightarrow> int \<Rightarrow> stmt list" where
  "migration_steps MIGRATIONS version =
     concat (map (\<lambda>i. [(js_nth MIGRATIONS i, []),
                       (JStr ''INSERT INTO checkpoint_migrations (v) VALUES ($1)'', [JNum i])])
               [version + 1 .. int (length MIGRATIONS) - 1])"

definition setup_script :: "string list \<Rightarrow> int \<Rightarrow> stmt list" where
  "setup_script MIGRATIONS version =
     [(JStr ''BEGIN'', []),
      (JStr ''SELECT v FROM checkpoint_migrations ORDER BY v DESC LIMIT 1'', [])]
     @ migration_steps MIGRATIONS version @ [(JStr ''COMMIT'', [])]"

definition ledger_version :: "(migration_row, 'x) pool_scheme \<Rightarrow> int" where
  "ledger_version p =
     (case respond p [Connect, Query (JStr ''BEGIN'') []]
             (JStr ''SELECT v FROM checkpoint_migrations ORDER BY v DESC LIMIT 1'') [] of
        Inr rows \<Rightarrow> (if rows = [] then - 1 else row_v (hd rows))
      | Inl e \<Rightarrow> - 1)"

declare run_script.simps [simp del]

definition try_setup :: "(migration_row, 'x) pool_scheme \<Rightarrow> string list \<Rightarrow> (error + unit) \<times> event list" where
  "try_setup p M =
     then_do (client_query p (JStr ''BEGIN'') [] [Connect]) (\<lambda>_ tr.
     then_do (read_version p tr) (\<lambda>version tr.
     then_do (run_migrations p M (version + 1) tr) (\<lambda>_ tr.
     then_do (client_query p (JStr ''COMMIT'') [] tr) (\<lambda>_ tr.
     (Inr (), tr)))))"

text \<open>
  Three stores for the examples: one without the ledger table, one whose ledger cannot
  be read in time, one that rejects the second migration.
\<close>

definition fresh_store :: "migration_row pool" where
  \<open>fresh_store =
     \<lparr>connect = None,
      respond = (\<lambda>tr t a.
        if tr = [Connect, Query (JStr ''BEGIN'') []]
           \<and> t = JStr ''SELECT v FROM checkpoint_migrations ORDER BY v DESC LIMIT 1'' \<and> a = []
        then Inl (Error ''error: relation "checkpoint_migrations" does not exist'')
        else Inr [])\<rparr>\<close>

definition broken_store :: "migration_row pool" where
  "broken_store =
     \<lparr>connect = None,
      respond = (\<lambda>tr t a. if t = JStr ''m1'' then Inl (Error ''syntax error'') else Inr [\<lparr>row_v = 0\<rparr>])\<rparr>"

definition timeout_store :: "migration_row pool" where
  "timeout_store =
     \<lparr>connect = None,
      respond = (\<lambda>tr t a.
        if t = JStr ''SELECT v FROM checkpoint_migrations ORDER BY v DESC LIMIT 1''
        then Inl (Error ''canceling statement due to statement timeout'')
        else Inr [])\<rparr>"

text \<open>
  To state what \<open>put\<close> sends: the statements of its transaction, in order.
\<close>

definition put_script ::
  "sql \<Rightarrow> serde \<Rightarrow> obj \<Rightarrow> obj \<Rightarrow> obj \<Rightarrow> ChannelVersions option \<Rightarrow> stmt list"
where
  "put_script q sd cf checkpoint metadata newVersions =
     [(JStr ''BEGIN'', [])]
     @ map (\<lambda>b. (JStr (UPSERT_CHECKPOINT_BLOBS_SQL q), b))
         (dumpBlobs sd (get_prop cf ''thread_id'')
            (if get_prop cf ''checkpoint_ns'' = JUndefined then JStr '''' else get_prop cf ''checkpoint_ns'')
            (record_of (get_prop checkpoint ''channel_values'')) newVersions)
     @ [(JStr (UPSERT_CHECKPOINTS_SQL q),
         [get_prop cf ''thread_id'',
          (if get_prop cf ''checkpoint_ns'' = JUndefined then JStr '''' else get_prop cf ''checkpoint_ns''),
          get_prop checkpoint ''id'', get_prop cf ''checkpoint_id'',
          JBytes (snd (dumpCheckpoint sd checkpoint)), JStr (dumpMetadata sd metadata)]),
        (JStr ''COMMIT'', [])]"

text \<open>
  To state what \<open>getTuple\<close> returns: the namespace of a config with its default, the
  rows of the thread and namespace a config names, and the tuple built from a row.
\<close>

definition tuple_of_row :: "serde \<Rightarrow> jsval \<Rightarrow> jsval \<Rightarrow> CheckpointRow \<Rightarrow> CheckpointTuple" where
  "tuple_of_row sd tid ns row =
     \<lparr>tuple_config =
        \<lparr>configurable = Some [(''thread_id'', tid), (''checkpoint_ns'', ns),
                               (''checkpoint_id'', JStr (row_checkpoint_id row))]\<rparr>,
      tuple_checkpoint =
        loadCheckpoint sd (row_checkpoint row) (row_channel_values row) (row_pending_sends row),
      tuple_metadata = loadMetadata sd (row_metadata row),
      tuple_parentConfig =
        (case row_parent_checkpoint_id row of
           None \<Rightarrow> None
         | Some parent \<Rightarrow>
             if parent \<noteq> []
             then Some \<lparr>configurable = Some [(''thread_id'', tid), (''checkpoint_ns'', ns),
                                              (''checkpoint_id'', JStr parent)]\<rparr>
             else None),
      tuple_pendingWrites = loadWrites sd (row_pending_writes row)\<rparr>"

definition config_ns :: "RunnableConfig \<Rightarrow> jsval" where
  "config_ns config =
     (if opt_prop (configurable config) ''checkpoint_ns'' = JUndefined then JStr ''''
      else opt_prop (configurable config) ''checkpoint_ns'')"

definition same_thread :: "RunnableConfig \<Rightarrow> CheckpointRow \<Rightarrow> bool" where
  "same_thread config r \<longleftrightarrow>
     opt_prop (configurable config) ''thread_id'' = JStr (row_thread_id r)
     \<and> sql_eq (row_checkpoint_ns r) (config_ns config)"

definition example_row3 :: CheckpointRow where
  "example_row3 =
     \<lparr>row_checkpoint = [(''id'', JStr ''c1'')], row_metadata = [], row_parent_checkpoint_id = Some '''',
      row_thread_id = ''t1'', row_checkpoint_id = ''c1'', row_checkpoint_ns = Some '''',
      row_channel_values = None, row_pending_writes = None, row_pending_sends = None\<rparr>"

section \<open>Properties\<close>

subsection \<open>Text and bytes\<close>

lemma byte_of_char: "char_of (unat (of_char c :: 8 word)) = c"
proof -
  have "(of_char c :: 8 word) = of_nat (of_char c)"
    by (simp add: of_nat_of_char)
  then have "unat (of_char c :: 8 word) = (of_char c :: nat) mod 256"
    by (simp add: unat_of_nat)
  then show ?thesis
    by (simp add: char_of_mod_256)
qed

lemma decode_encode: "decode (encode s) = s"
  unfolding decode_def encode_def
  by (induction s) (simp_all add: byte_of_char)

subsection \<open>Pending-write rows\<close>

lemma dumpWrites_length:
  "length (dumpWrites W sd tid ns cid task writes) = length writes"
  by (simp add: dumpWrites_def)

lemma dumpWrites_nth:
  assumes "i < length writes"
  shows "dumpWrites W sd tid ns cid task writes ! i =
           [tid, ns, cid, JStr task,
            (if table_get W (fst (writes ! i)) \<noteq> JUndefined
             then table_get W (fst (writes ! i)) else JNum (int i)),
            JStr (fst (writes ! i)), JStr (fst (dumpsTyped sd (snd (writes ! i)))),
            JBytes (snd (dumpsTyped sd (snd (writes ! i))))]"
  using assms
  by (simp add: dumpWrites_def nth_enumerate_eq split: prod.splits)

lemma table_get_other_name:
  "k \<notin> set object_prototype \<Longrightarrow>
   table_get W k = (case W k of Some r \<Rightarrow> JNum r | None \<Rightarrow> JUndefined)"
  by (simp add: table_get_def split: option.splits)

lemma table_get_inherited:
  "k \<in> set object_prototype \<Longrightarrow> W k = None \<Longrightarrow> table_get W k = JInherited k"
  by (simp add: table_get_def)

lemma not_inherited_examples:
  "''__start__'' \<notin> set object_prototype" "''custom_chan'' \<notin> set object_prototype"
  "''__error__'' \<notin> set object_prototype" "''x'' \<notin> set object_prototype"
  "''y'' \<notin> set object_prototype"
  by (simp_all add: object_prototype_def)

lemma constructor_inherited: "''constructor'' \<in> set object_prototype"
  by (simp add: object_prototype_def)

text \<open>
  For channels whose names \<^verbatim>\<open>Object.prototype\<close> does not have, the row at batch position
  \<open>i\<close> carries, as its ordering slot (the fifth cell), the reserved index of its channel
  when the channel is in the reserved-name table, and \<open>i\<close> itself otherwise. With
  \<open>__start__\<close> reserved at index 0 and \<open>custom_chan\<close> not reserved, the batch of the two
  writes gets the slots 0 and 1.
\<close>

lemma dumpWrites_idx_other_names:
  "length (dumpWrites W sd tid ns cid task writes) = length writes
   \<and> (\<forall>i < length writes. fst (writes ! i) \<notin> set object_prototype \<longrightarrow>
        dumpWrites W sd tid ns cid task writes ! i ! 4 =
          (if fst (writes ! i) \<in> dom W then JNum (the (W (fst (writes ! i)))) else JNum (int i)))
   \<and> (W ''__start__'' = Some 0 \<longrightarrow> W ''custom_chan'' = None \<longrightarrow>
        map (\<lambda>row. row ! 4)
          (dumpWrites W sd tid ns cid task [(''__start__'', v0), (''custom_chan'', v1)])
        = [JNum 0, JNum 1])"
proof (intro conjI allI impI)
  show "length (dumpWrites W sd tid ns cid task writes) = length writes"
    by (rule dumpWrites_length)
next
  fix i assume "i < length writes" "fst (writes ! i) \<notin> set object_prototype"
  then show "dumpWrites W sd tid ns cid task writes ! i ! 4 =
          (if fst (writes ! i) \<in> dom W then JNum (the (W (fst (writes ! i)))) else JNum (int i))"
    by (auto simp: dumpWrites_nth table_get_other_name dom_def)
next
  assume "W ''__start__'' = Some 0" "W ''custom_chan'' = None"
  then show "map (\<lambda>row. row ! 4)
          (dumpWrites W sd tid ns cid task [(''__start__'', v0), (''custom_chan'', v1)])
        = [JNum 0, JNum 1]"
    by (simp add: dumpWrites_def enumerate_simps table_get_other_name not_inherited_examples
          split: prod.splits)
qed

lemma dumpWrites_idx_example:
  "map (\<lambda>row. row ! 4)
     (dumpWrites [''__start__'' \<mapsto> 0] \<lparr>dumpsTyped = (\<lambda>v. (''json'', [])), loadsTyped = (\<lambda>t b. JNull)\<rparr>
        (JStr ''t1'') (JStr '''') (JStr ''c1'') ''task''
        [(''__start__'', JNum 7), (''custom_chan'', JNum 8)])
   = [JNum 0, JNum 1]
   \<and> dumpWrites [''__start__'' \<mapsto> 0] \<lparr>dumpsTyped = (\<lambda>v. (''json'', [])), loadsTyped = (\<lambda>t b. JNull)\<rparr>
        (JStr ''t1'') (JStr '''') (JStr ''c1'') ''task''
        [(''__start__'', JNum 7), (''custom_chan'', JNum 8)] ! 1 ! 4 = JNum 1"
  using dumpWrites_idx_other_names [of "[''__start__'' \<mapsto> 0]"
      "\<lparr>dumpsTyped = (\<lambda>v. (''json'', [])), loadsTyped = (\<lambda>t b. JNull)\<rparr>"
      "JStr ''t1''" "JStr ''''" "JStr ''c1''" "''task''"
      "[(''__start__'', JNum 7), (''custom_chan'', JNum 8)]" "JNum 7" "JNum 8"]
  by (simp add: not_inherited_examples)

text \<open>
  C7, where the code departs from it. The lookup \<^verbatim>\<open>WRITES_IDX_MAP[channel]\<close> also finds
  the members of \<^verbatim>\<open>Object.prototype\<close>. For a write to the channel \<open>constructor\<close>, which no
  table entry names, the ordering slot of the row is that inherited member and not the
  batch position of the write: whatever the other entries of the table, the serializer
  and the value, at position 0 the slot is not 0, and at position 1 it is not 1.
\<close>

theorem dumpWrites_inherited_name:
  "map (\<lambda>row. row ! 4)
     (dumpWrites (W(''constructor'' := None)) sd tid ns cid task [(''constructor'', v0)])
     = [JInherited ''constructor'']
   \<and> map (\<lambda>row. row ! 4)
       (dumpWrites (W(''constructor'' := None)) sd tid ns cid task
          [(''custom_chan'', v0), (''constructor'', v1)]) ! 1
     = JInherited ''constructor''
   \<and> JInherited ''constructor'' \<noteq> JNum 0 \<and> JInherited ''constructor'' \<noteq> JNum 1"
  by (simp add: dumpWrites_def enumerate_simps table_get_def constructor_inherited
        split: prod.splits)

subsection \<open>Channel blobs\<close>

lemma map_of_foldl_update:
  "map_of (foldl (\<lambda>ob (k, v). AList.update k v ob) acc es) k =
     (case map_of (rev es) k of Some v \<Rightarrow> Some v | None \<Rightarrow> map_of acc k)"
proof (induction es arbitrary: acc)
  case Nil
  then show ?case by simp
next
  case (Cons e es)
  obtain a b where e: "e = (a, b)" by (cases e)
  show ?case
    by (simp add: Cons.IH e update_conv' map_add_def split: option.splits)
qed

lemma map_of_fromEntries: "map_of (fromEntries es) k = map_of (rev es) k"
  by (simp add: fromEntries_def map_of_foldl_update split: option.splits)

lemma map_of_keyed:
  "map_of (map (\<lambda>x. (h x, g (h x))) xs) k = (if k \<in> h ` set xs then Some (g k) else None)"
  by (induction xs) auto

lemma own_property_map_of: "own_property ob k \<Longrightarrow> map_of ob k = Some (get_member ob k)"
  by (auto simp: own_property_def get_member_def map_of_eq_None_iff split: option.splits)

lemma has_property_other_name:
  "own_property ob k \<or> k \<notin> set object_prototype \<Longrightarrow> has_property ob k = own_property ob k"
  by (auto simp: has_property_def)

lemma dumpBlobs_rows:
  "dumpBlobs sd tid ns values (Some versions) =
     map (\<lambda>(k, ver).
            if has_property values k
            then [tid, ns, JStr k, JStr (toString ver), JStr (fst (dumpsTyped sd (get_member values k))),
                  JBytes (snd (dumpsTyped sd (get_member values k)))]
            else [tid, ns, JStr k, JStr (toString ver), JStr ''empty'', JUndefined])
         versions"
  by (auto simp: dumpBlobs_def split: prod.splits)

lemma dumpBlobs_cells:
  "map blob_cells (dumpBlobs sd tid ns values (Some versions)) =
     map (\<lambda>(k, ver).
            if has_property values k
            then (encode k, encode (fst (dumpsTyped sd (get_member values k))),
                  Some (snd (dumpsTyped sd (get_member values k))))
            else (encode k, encode ''empty'', None))
         versions"
  by (auto simp: dumpBlobs_rows blob_cells_def str_of_def bytes_of_def)

lemma loadBlobs_entries:
  "loadBlobs sd (Some bs) =
     fromEntries (map (\<lambda>(k, t, v). (decode k, loadsTyped sd (decode t) v))
                    (filter (\<lambda>(k, t, v). decode t \<noteq> ''empty'') bs))"
  by (cases bs) (simp_all add: loadBlobs_def fromEntries_def)

text \<open>
  What comes back in general: the channels of \<open>versions\<close> that \<^verbatim>\<open>k in values\<close> finds,
  own or inherited, each with the member \<^verbatim>\<open>values[k]\<close>.
\<close>

lemma loadBlobs_dumpBlobs:
  assumes rt: "\<forall>(k, ver) \<in> set versions. has_property values k \<longrightarrow>
                 loadsTyped sd (fst (dumpsTyped sd (get_member values k)))
                   (Some (snd (dumpsTyped sd (get_member values k)))) = get_member values k"
  shows "map_of (loadBlobs sd (Some (map blob_cells (dumpBlobs sd tid ns values (Some versions))))) k =
           (if k \<in> fst ` set versions \<and> has_property values k
                 \<and> fst (dumpsTyped sd (get_member values k)) \<noteq> ''empty''
            then Some (get_member values k) else None)"
proof -
  let ?keep = "\<lambda>k. has_property values k \<and> fst (dumpsTyped sd (get_member values k)) \<noteq> ''empty''"
  let ?ks = "filter ?keep (map fst versions)"
  have ent: "map (\<lambda>(k, t, v). (decode k, loadsTyped sd (decode t) v))
                    (filter (\<lambda>(k, t, v). decode t \<noteq> ''empty'')
                       (map blob_cells (dumpBlobs sd tid ns values (Some versions))))
             = map (\<lambda>k. (k, get_member values k)) ?ks"
    unfolding dumpBlobs_cells
    using rt
    by (induction versions) (auto simp: decode_encode split: if_splits)
  have "map_of (rev (map (\<lambda>k. (k, get_member values k)) ?ks)) k =
          (if k \<in> set ?ks then Some (get_member values k) else None)"
    using map_of_keyed [of "\<lambda>k. k" "get_member values" "rev ?ks" k]
    by (simp add: rev_map)
  then show ?thesis
    by (auto simp: loadBlobs_entries ent map_of_fromEntries)
qed

text \<open>
  When every channel of \<open>versions\<close> is an own property of \<open>values\<close> or a name that
  \<^verbatim>\<open>Object.prototype\<close> does not have: \<open>dumpBlobs\<close> emits exactly one row per channel of
  \<open>versions\<close>, in order, the row of a channel without an entry in \<open>values\<close> carrying the
  sentinel type \<open>empty\<close> and no bytes, the row of any other channel carrying the
  serializer's type and bytes; and when the serializer reads back what it wrote for the
  stored values, \<open>loadBlobs\<close> on the stored rows yields exactly \<open>values\<close> restricted to the
  channels of \<open>versions\<close>, without the channels whose stored type tag is \<open>empty\<close>.
\<close>

lemma blobs_round_trip_other_names:
  assumes names: "\<forall>(k, ver) \<in> set versions. own_property values k \<or> k \<notin> set object_prototype"
    and rt: "\<forall>(k, ver) \<in> set versions. own_property values k \<longrightarrow>
             loadsTyped sd (fst (dumpsTyped sd (get_member values k)))
               (Some (snd (dumpsTyped sd (get_member values k)))) = get_member values k"
  shows "map (\<lambda>row. (row ! 2, row ! 4, row ! 5)) (dumpBlobs sd tid ns values (Some versions)) =
           map (\<lambda>(k, ver).
                  if own_property values k
                  then (JStr k, JStr (fst (dumpsTyped sd (get_member values k))),
                        JBytes (snd (dumpsTyped sd (get_member values k))))
                  else (JStr k, JStr ''empty'', JUndefined))
               versions
         \<and> map_of (loadBlobs sd (Some (map blob_cells (dumpBlobs sd tid ns values (Some versions))))) k =
             (if k \<in> fst ` set versions \<and> own_property values k
                   \<and> fst (dumpsTyped sd (get_member values k)) \<noteq> ''empty''
              then map_of values k else None)"
proof
  have hp: "\<And>k ver. (k, ver) \<in> set versions \<Longrightarrow> has_property values k = own_property values k"
    using names by (auto simp: has_property_def)
  show "map (\<lambda>row. (row ! 2, row ! 4, row ! 5)) (dumpBlobs sd tid ns values (Some versions)) =
           map (\<lambda>(k, ver).
                  if own_property values k
                  then (JStr k, JStr (fst (dumpsTyped sd (get_member values k))),
                        JBytes (snd (dumpsTyped sd (get_member values k))))
                  else (JStr k, JStr ''empty'', JUndefined))
               versions"
    using hp by (auto simp: dumpBlobs_rows)
  have rt': "\<forall>(k, ver) \<in> set versions. has_property values k \<longrightarrow>
                 loadsTyped sd (fst (dumpsTyped sd (get_member values k)))
                   (Some (snd (dumpsTyped sd (get_member values k)))) = get_member values k"
    using rt hp by auto
  have "map_of (loadBlobs sd (Some (map blob_cells (dumpBlobs sd tid ns values (Some versions))))) k =
           (if k \<in> fst ` set versions \<and> has_property values k
                 \<and> fst (dumpsTyped sd (get_member values k)) \<noteq> ''empty''
            then Some (get_member values k) else None)"
    using rt' by (rule loadBlobs_dumpBlobs)
  also have "\<dots> = (if k \<in> fst ` set versions \<and> own_property values k
                   \<and> fst (dumpsTyped sd (get_member values k)) \<noteq> ''empty''
              then map_of values k else None)"
    using hp by (auto simp: own_property_map_of)
  finally show "map_of (loadBlobs sd (Some (map blob_cells (dumpBlobs sd tid ns values (Some versions))))) k =
             (if k \<in> fst ` set versions \<and> own_property values k
                   \<and> fst (dumpsTyped sd (get_member values k)) \<noteq> ''empty''
              then map_of values k else None)" .
qed

lemma blobs_round_trip_example:
  "map (\<lambda>row. (row ! 2, row ! 4, row ! 5))
     (dumpBlobs num_serde (JStr ''t1'') (JStr '''') [(''x'', JNum 1)]
        (Some [(''x'', VStr ''00001''), (''y'', VNum 2)]))
   = [(JStr ''x'', JStr ''num'', JBytes [1]), (JStr ''y'', JStr ''empty'', JUndefined)]
   \<and> map_of (loadBlobs num_serde (Some (map blob_cells
        (dumpBlobs num_serde (JStr ''t1'') (JStr '''') [(''x'', JNum 1)]
           (Some [(''x'', VStr ''00001''), (''y'', VNum 2)]))))) ''x'' = Some (JNum 1)
   \<and> map_of (loadBlobs num_serde (Some (map blob_cells
        (dumpBlobs num_serde (JStr ''t1'') (JStr '''') [(''x'', JNum 1)]
           (Some [(''x'', VStr ''00001''), (''y'', VNum 2)]))))) ''y'' = None"
proof -
  have names: "\<forall>(k, ver) \<in> set [(''x'', VStr ''00001''), (''y'', VNum 2)].
                 own_property [(''x'', JNum 1)] k \<or> k \<notin> set object_prototype"
    by (simp add: not_inherited_examples)
  have rt: "\<forall>(k, ver) \<in> set [(''x'', VStr ''00001''), (''y'', VNum 2)].
              own_property [(''x'', JNum 1)] k \<longrightarrow>
              loadsTyped num_serde (fst (dumpsTyped num_serde (get_member [(''x'', JNum 1)] k)))
                (Some (snd (dumpsTyped num_serde (get_member [(''x'', JNum 1)] k))))
              = get_member [(''x'', JNum 1)] k"
    by (simp add: own_property_def get_member_def num_serde_def)
  show ?thesis
    using blobs_round_trip_other_names [OF names rt, of "JStr ''t1''" "JStr ''''" "''x''"]
          blobs_round_trip_other_names [OF names rt, of "JStr ''t1''" "JStr ''''" "''y''"]
    by (simp add: own_property_def get_member_def num_serde_def)
qed

text \<open>
  C2, where the code departs from it. The test \<^verbatim>\<open>k in values\<close> also finds the names of
  \<^verbatim>\<open>Object.prototype\<close>. For a channel \<open>constructor\<close> of \<open>versions\<close> that has no entry in
  \<open>values\<close>, \<open>dumpBlobs\<close> does not emit the sentinel row: it serializes the inherited
  member \<^verbatim>\<open>values[k]\<close>, for every serializer; and with a serializer whose type tag for it
  is not \<open>empty\<close>, \<open>loadBlobs\<close> on the stored rows yields a mapping with the channel
  \<open>constructor\<close>, which the restriction of \<open>values\<close> to the channels of \<open>versions\<close> does
  not have.
\<close>

theorem blobs_inherited_channel:
  "dumpBlobs sd tid ns [(''x'', JNum 1)] (Some [(''constructor'', ver)]) =
     [[tid, ns, JStr ''constructor'', JStr (toString ver),
       JStr (fst (dumpsTyped sd (JInherited ''constructor''))),
       JBytes (snd (dumpsTyped sd (JInherited ''constructor'')))]]
   \<and> map_of [(''x'', JNum 1)] ''constructor'' = None
   \<and> map (\<lambda>row. (row ! 2, row ! 4, row ! 5))
       (dumpBlobs num_serde (JStr ''t1'') (JStr '''') [(''x'', JNum 1)]
          (Some [(''constructor'', VNum 1)]))
     = [(JStr ''constructor'', JStr ''null'', JBytes [])]
   \<and> map_of (loadBlobs num_serde (Some (map blob_cells
        (dumpBlobs num_serde (JStr ''t1'') (JStr '''') [(''x'', JNum 1)]
           (Some [(''constructor'', VNum 1)]))))) ''constructor'' = Some JNull"
proof -
  have hp: "has_property [(''x'', JNum 1)] ''constructor''"
    by (simp add: has_property_def constructor_inherited)
  have gm: "get_member [(''x'', JNum 1)] ''constructor'' = JInherited ''constructor''"
    by (simp add: get_member_def constructor_inherited)
  have rows: "\<And>sd tid ns ver. dumpBlobs sd tid ns [(''x'', JNum 1)] (Some [(''constructor'', ver)]) =
     [[tid, ns, JStr ''constructor'', JStr (toString ver),
       JStr (fst (dumpsTyped sd (JInherited ''constructor''))),
       JBytes (snd (dumpsTyped sd (JInherited ''constructor'')))]]"
    by (simp add: dumpBlobs_rows hp gm)
  have ns: "dumpsTyped num_serde (JInherited ''constructor'') = (''null'', [])"
    by (simp add: num_serde_def)
  have ld: "map_of (loadBlobs num_serde (Some (map blob_cells
        (dumpBlobs num_serde (JStr ''t1'') (JStr '''') [(''x'', JNum 1)]
           (Some [(''constructor'', VNum 1)]))))) ''constructor'' = Some JNull"
    unfolding rows
    by (simp add: ns loadBlobs_entries map_of_fromEntries blob_cells_def str_of_def bytes_of_def
          decode_encode num_serde_def)
  show ?thesis
    using rows ld by (simp add: ns)
qed

subsection \<open>Checkpoint and metadata\<close>

text \<open>
  C8. \<open>dumpCheckpoint\<close> hands the serializer the checkpoint object with
  \<open>pending_sends\<close> set to the empty list; every other property of that object is the
  checkpoint's own, and no property is added besides \<open>pending_sends\<close>.
\<close>

theorem dumpCheckpoint_zeroes_pending_sends:
  "dumpCheckpoint sd checkpoint =
     dumpsTyped sd (JObj (AList.update ''pending_sends'' (JArr []) checkpoint))
   \<and> get_prop (AList.update ''pending_sends'' (JArr []) checkpoint) ''pending_sends'' = JArr []
   \<and> (\<forall>k. k \<noteq> ''pending_sends'' \<longrightarrow>
         map_of (AList.update ''pending_sends'' (JArr []) checkpoint) k = map_of checkpoint k)
   \<and> fst ` set (AList.update ''pending_sends'' (JArr []) checkpoint) =
       insert ''pending_sends'' (fst ` set checkpoint)"
  by (simp add: dumpCheckpoint_def get_prop_def update_conv' dom_update)

theorem dumpCheckpoint_zeroes_pending_sends_witness:
  "dumpCheckpoint num_serde [(''id'', JStr ''c1''), (''pending_sends'', JArr [JNum 5]), (''v'', JNum 1)]
     = dumpsTyped num_serde (JObj [(''id'', JStr ''c1''), (''pending_sends'', JArr []), (''v'', JNum 1)])
   \<and> ''id'' \<noteq> ''pending_sends''
   \<and> map_of (AList.update ''pending_sends'' (JArr [])
        [(''id'', JStr ''c1''), (''pending_sends'', JArr [JNum 5]), (''v'', JNum 1)]) ''id''
       = Some (JStr ''c1'')"
  using dumpCheckpoint_zeroes_pending_sends [of num_serde
          "[(''id'', JStr ''c1''), (''pending_sends'', JArr [JNum 5]), (''v'', JNum 1)]"]
  by simp

text \<open>
  C9. \<open>dumpMetadata\<close> returns the serializer's bytes for the metadata, decoded to
  text, with every null character removed; the result holds no null character.
\<close>

theorem dumpMetadata_strips_nulls:
  "dumpMetadata sd metadata =
     filter (\<lambda>c. c \<noteq> CHR 0x00) (decode (snd (dumpsTyped sd (JObj metadata))))
   \<and> CHR 0x00 \<notin> set (dumpMetadata sd metadata)"
  by (simp add: dumpMetadata_def split: prod.splits)

subsection \<open>Search predicates\<close>

lemma numbered_snoc:
  "numbered (cs @ [(t, v)]) = numbered cs @ [t @ ''$'' @ string_of_nat (length cs + 1)]"
  by (simp add: numbered_def enumerate_append_eq)

lemma push_where_state:
  "push_where (t @ ''$'') v (where_state cs) = where_state (cs @ [(t, v)])"
  by (simp add: push_where_def numbered_snoc where_state_def)

lemma where_state_Nil: "([], []) = where_state []"
  by (simp add: where_state_def numbered_def)

lemma numbered_Nil_iff: "numbered cs = [] \<longleftrightarrow> cs = []"
  by (cases cs) (simp_all add: numbered_def enumerate_simps)

lemma numbered_nth:
  "i < length cs \<Longrightarrow> numbered cs ! i = fst (cs ! i) @ ''$'' @ string_of_nat (i + 1)"
  by (simp add: numbered_def nth_enumerate_eq split: prod.splits)

lemma where_state_result:
  "(case where_state cs of (wheres, paramValues) \<Rightarrow>
      (if length wheres > 0 then ''WHERE '' @ join '' AND '' wheres else '''', paramValues)) =
   (if cs = [] then '''' else ''WHERE '' @ join '' AND '' (numbered cs), map snd cs)"
  by (simp add: where_state_def numbered_Nil_iff)

lemma searchWhere_clauses:
  "searchWhere J config filt before =
     (if search_clauses J config filt before = [] then ''''
      else ''WHERE '' @ join '' AND '' (numbered (search_clauses J config filt before)),
      map snd (search_clauses J config filt before))"
proof -
  note pws = push_where_state [of "''thread_id = ''", simplified]
    push_where_state [of "''checkpoint_ns = ''", simplified]
    push_where_state [of "''checkpoint_id = ''", simplified]
    push_where_state [of "''metadata @> ''", simplified]
    push_where_state [of "''checkpoint_id < ''", simplified]
  have "searchWhere J config filt before =
          (case where_state (search_clauses J config filt before) of (wheres, paramValues) \<Rightarrow>
            (if length wheres > 0 then ''WHERE '' @ join '' AND '' wheres else '''', paramValues))"
    unfolding searchWhere_def search_clauses_def Let_def where_state_Nil
    by (simp add: pws split: option.splits)
  then show ?thesis
    by (simp only: where_state_result)
qed

text \<open>
  C6. \<open>searchWhere\<close> returns the clauses that apply, in the fixed order thread-id
  equality (identity filter present), namespace equality (specified), checkpoint-id
  equality (specified), metadata containment with the filter as one JSON argument
  (filter non-empty), checkpoint-id-less-than (before-cursor given), joined by \<open>AND\<close>
  after \<open>WHERE\<close>; the clause at position \<open>i\<close> carries the parameter number \<open>i + 1\<close> and
  the argument at position \<open>i\<close> is its value; with no filter at all the predicate is
  the empty string and there is no argument.
\<close>

theorem searchWhere_predicates:
  "searchWhere J config filt before =
     (if search_clauses J config filt before = [] then ''''
      else ''WHERE '' @ join '' AND '' (numbered (search_clauses J config filt before)),
      map snd (search_clauses J config filt before))
   \<and> (\<forall>i < length (search_clauses J config filt before).
         numbered (search_clauses J config filt before) ! i =
           fst (search_clauses J config filt before ! i) @ ''$'' @ string_of_nat (i + 1)
         \<and> snd (searchWhere J config filt before) ! i = snd (search_clauses J config filt before ! i))
   \<and> searchWhere J None None None = ('''', [])"
proof (intro conjI allI impI)
  show "searchWhere J config filt before =
     (if search_clauses J config filt before = [] then ''''
      else ''WHERE '' @ join '' AND '' (numbered (search_clauses J config filt before)),
      map snd (search_clauses J config filt before))"
    by (rule searchWhere_clauses)
next
  fix i assume "i < length (search_clauses J config filt before)"
  then show "numbered (search_clauses J config filt before) ! i =
           fst (search_clauses J config filt before ! i) @ ''$'' @ string_of_nat (i + 1)"
    by (rule numbered_nth)
next
  fix i assume "i < length (search_clauses J config filt before)"
  then show "snd (searchWhere J config filt before) ! i = snd (search_clauses J config filt before ! i)"
    by (simp add: searchWhere_clauses)
next
  show "searchWhere J None None None = ('''', [])"
    by (simp add: searchWhere_def)
qed

theorem searchWhere_predicates_witness:
  "searchWhere (\<lambda>x. ''{}'')
     (Some \<lparr>configurable = Some [(''thread_id'', JStr ''t1''), (''checkpoint_id'', JStr ''c9'')]\<rparr>)
     (Some [(''source'', JStr ''loop'')])
     (Some \<lparr>configurable = Some [(''checkpoint_id'', JStr ''c5'')]\<rparr>)
   = (''WHERE thread_id = $1 AND checkpoint_id = $2 AND metadata @> $3 AND checkpoint_id < $4'',
      [JStr ''t1'', JStr ''c9'', JStr ''{}'', JStr ''c5''])
   \<and> (2::nat) < length (search_clauses (\<lambda>x. ''{}'')
         (Some \<lparr>configurable = Some [(''thread_id'', JStr ''t1''), (''checkpoint_id'', JStr ''c9'')]\<rparr>)
         (Some [(''source'', JStr ''loop'')])
         (Some \<lparr>configurable = Some [(''checkpoint_id'', JStr ''c5'')]\<rparr>))
   \<and> numbered (search_clauses (\<lambda>x. ''{}'')
         (Some \<lparr>configurable = Some [(''thread_id'', JStr ''t1''), (''checkpoint_id'', JStr ''c9'')]\<rparr>)
         (Some [(''source'', JStr ''loop'')])
         (Some \<lparr>configurable = Some [(''checkpoint_id'', JStr ''c5'')]\<rparr>)) ! 2 = ''metadata @> $3''"
  using searchWhere_predicates [of "\<lambda>x. ''{}''"
      "Some \<lparr>configurable = Some [(''thread_id'', JStr ''t1''), (''checkpoint_id'', JStr ''c9'')]\<rparr>"
      "Some [(''source'', JStr ''loop'')]"
      "Some \<lparr>configurable = Some [(''checkpoint_id'', JStr ''c5'')]\<rparr>"]
  by (simp add: search_clauses_def get_prop_def numbered_def enumerate_simps
        string_of_nat.simps digit_char_def)

subsection \<open>Scripts\<close>

lemma migration_steps_unfold:
  "migration_steps M version =
     (if version + 1 < int (length M)
      then (js_nth M (version + 1), []) #
           (JStr ''INSERT INTO checkpoint_migrations (v) VALUES ($1)'', [JNum (version + 1)]) #
           migration_steps M (version + 1)
      else [])"
  by (simp add: migration_steps_def upto_rec1 [of "version + 1"])

lemma issued_simps:
  "issued [] = []"
  "issued (q # qs) = Query (fst q) (snd q) # issued qs"
  "issued (qs @ qs') = issued qs @ issued qs'"
  by (simp_all add: issued_def split: prod.splits)

lemma run_script_Nil: "run_script p [] tr = (Inr (), tr)"
  by (simp add: run_script.simps)

lemma run_script_Cons:
  "run_script p (q # qs) tr =
     (case respond p tr (fst q) (snd q) of
        Inl e \<Rightarrow> (Inl e, tr @ [Query (fst q) (snd q)])
      | Inr rows \<Rightarrow> run_script p qs (tr @ [Query (fst q) (snd q)]))"
  by (simp add: run_script.simps then_do_def client_query_def split: sum.splits)

lemma run_migrations_step:
  "run_migrations p M i tr =
     (if i < int (length M)
      then (case respond p tr (js_nth M i) [] of
              Inl e \<Rightarrow> (Inl e, tr @ [Query (js_nth M i) []])
            | Inr rows \<Rightarrow>
                (case respond p (tr @ [Query (js_nth M i) []])
                        (JStr ''INSERT INTO checkpoint_migrations (v) VALUES ($1)'') [JNum i] of
                   Inl e \<Rightarrow> (Inl e, tr @ [Query (js_nth M i) []] @
                              [Query (JStr ''INSERT INTO checkpoint_migrations (v) VALUES ($1)'') [JNum i]])
                 | Inr rows' \<Rightarrow>
                     run_migrations p M (i + 1)
                       (tr @ [Query (js_nth M i) []] @
                          [Query (JStr ''INSERT INTO checkpoint_migrations (v) VALUES ($1)'') [JNum i]])))
      else (Inr (), tr))"
  by (subst run_migrations.simps) (simp add: then_do_def client_query_def split: sum.splits)

lemma run_migrations_script:
  "run_migrations p M i tr = run_script p (migration_steps M (i - 1)) tr"
proof (induction "nat (int (length M) - i)" arbitrary: i tr)
  case 0
  then have "\<not> i < int (length M)" by simp
  then show ?case
    by (subst run_migrations_step, subst migration_steps_unfold) (simp add: run_script_Nil)
next
  case (Suc n)
  then have lt: "i < int (length M)" by simp
  have n: "n = nat (int (length M) - (i + 1))" using Suc.hyps(2) by simp
  have st: "migration_steps M (i - 1) =
          (js_nth M i, []) #
          (JStr ''INSERT INTO checkpoint_migrations (v) VALUES ($1)'', [JNum i]) #
          migration_steps M i"
    using lt by (subst migration_steps_unfold) simp
  show ?case
    unfolding st
    by (subst run_migrations_step)
       (simp add: lt run_script_Cons Suc.hyps(1) [OF n] split: sum.splits)
qed

lemma run_script_ok:
  "run_script p qs tr = (Inr u, tr') \<Longrightarrow> tr' = tr @ issued qs"
proof (induction qs arbitrary: tr)
  case Nil
  then show ?case by (simp add: issued_simps run_script_Nil)
next
  case (Cons q qs)
  from Cons.prems have "run_script p qs (tr @ [Query (fst q) (snd q)]) = (Inr u, tr')"
    by (simp add: run_script_Cons split: sum.splits)
  from Cons.IH [OF this] show ?case
    by (simp add: issued_simps)
qed

lemma run_script_error:
  "run_script p qs tr = (Inl e, tr') \<Longrightarrow>
     \<exists>dn q rest. qs = dn @ q # rest \<and> tr' = tr @ issued (dn @ [q])
        \<and> respond p (tr @ issued dn) (fst q) (snd q) = Inl e"
proof (induction qs arbitrary: tr)
  case Nil
  then show ?case by (simp add: run_script_Nil)
next
  case (Cons q qs)
  show ?case
  proof (cases "respond p tr (fst q) (snd q)")
    case (Inl e')
    with Cons.prems have "e' = e" "tr' = tr @ [Query (fst q) (snd q)]"
      by (simp_all add: run_script_Cons)
    with Inl have "q # qs = [] @ q # qs \<and> tr' = tr @ issued ([] @ [q])
        \<and> respond p (tr @ issued []) (fst q) (snd q) = Inl e"
      by (simp add: issued_simps)
    then show ?thesis by blast
  next
    case (Inr rows)
    with Cons.prems have "run_script p qs (tr @ [Query (fst q) (snd q)]) = (Inl e, tr')"
      by (simp add: run_script_Cons)
    from Cons.IH [OF this] obtain dn q' rest where
      *: "qs = dn @ q' # rest" "tr' = (tr @ [Query (fst q) (snd q)]) @ issued (dn @ [q'])"
         "respond p ((tr @ [Query (fst q) (snd q)]) @ issued dn) (fst q') (snd q') = Inl e"
      by blast
    then have "q # qs = (q # dn) @ q' # rest \<and> tr' = tr @ issued ((q # dn) @ [q'])
        \<and> respond p (tr @ issued (q # dn)) (fst q') (snd q') = Inl e"
      by (simp add: issued_simps)
    then show ?thesis by blast
  qed
qed

lemma run_script_append:
  "run_script p (qs @ qs') tr =
     (case run_script p qs tr of (Inl e, tr') \<Rightarrow> (Inl e, tr') | (Inr u, tr') \<Rightarrow> run_script p qs' tr')"
  by (induction qs arbitrary: tr) (simp_all add: run_script_Nil run_script_Cons split: sum.splits)

lemma read_version_result:
  \<open>read_version p tr =
     ((case respond p tr (JStr ''SELECT v FROM checkpoint_migrations ORDER BY v DESC LIMIT 1'') [] of
         Inr rows \<Rightarrow> Inr (if rows = [] then - 1 else row_v (hd rows))
       | Inl e \<Rightarrow> if str_includes (message e) ''relation "checkpoint_migrations" does not exist''
                  then Inr (- 1) else Inl e),
      tr @ [Query (JStr ''SELECT v FROM checkpoint_migrations ORDER BY v DESC LIMIT 1'') []])\<close>
  by (auto simp: read_version_def client_query_def hd_conv_nth split: sum.splits)

subsection \<open>Schema setup\<close>

lemma saver_setup_try:
  "connect p = None \<Longrightarrow> saver_setup p M = rollback_release p (try_setup p M)"
  by (simp add: saver_setup_def try_setup_def)

lemma migrate_commit:
  "then_do (run_migrations p M (version + 1) tr) (\<lambda>_ tr.
     then_do (client_query p (JStr ''COMMIT'') [] tr) (\<lambda>_ tr. (Inr (), tr)))
   = run_script p (migration_steps M version @ [(JStr ''COMMIT'', [])]) tr"
  by (simp add: run_migrations_script run_script_append run_script_Cons run_script_Nil
        then_do_def client_query_def split: prod.splits sum.splits)

lemma try_setup_cases:
  \<open>try_setup p M =
     (case respond p [Connect] (JStr ''BEGIN'') [] of
        Inl e \<Rightarrow> (Inl e, [Connect, Query (JStr ''BEGIN'') []])
      | Inr r \<Rightarrow>
          (case respond p [Connect, Query (JStr ''BEGIN'') []]
                  (JStr ''SELECT v FROM checkpoint_migrations ORDER BY v DESC LIMIT 1'') [] of
             Inl e \<Rightarrow>
               if str_includes (message e) ''relation "checkpoint_migrations" does not exist''
               then run_script p (migration_steps M (- 1) @ [(JStr ''COMMIT'', [])])
                      [Connect, Query (JStr ''BEGIN'') [],
                       Query (JStr ''SELECT v FROM checkpoint_migrations ORDER BY v DESC LIMIT 1'') []]
               else (Inl e, [Connect, Query (JStr ''BEGIN'') [],
                       Query (JStr ''SELECT v FROM checkpoint_migrations ORDER BY v DESC LIMIT 1'') []])
           | Inr rows \<Rightarrow>
               run_script p (migration_steps M (if rows = [] then - 1 else row_v (hd rows)) @ [(JStr ''COMMIT'', [])])
                 [Connect, Query (JStr ''BEGIN'') [],
                  Query (JStr ''SELECT v FROM checkpoint_migrations ORDER BY v DESC LIMIT 1'') []]))\<close>
  unfolding try_setup_def migrate_commit
  by (simp add: then_do_def client_query_def read_version_result split: sum.splits)

lemma try_setup_ok:
  assumes "try_setup p M = (Inr u, tr)"
  shows "tr = Connect # issued (setup_script M (ledger_version p))"
proof -
  let ?pre = "[Connect, Query (JStr ''BEGIN'') [],
      Query (JStr ''SELECT v FROM checkpoint_migrations ORDER BY v DESC LIMIT 1'') []]"
  have "run_script p (migration_steps M (ledger_version p) @ [(JStr ''COMMIT'', [])]) ?pre = (Inr u, tr)"
    using assms unfolding try_setup_cases ledger_version_def
    by (auto split: sum.splits if_splits)
  from run_script_ok [OF this] show ?thesis
    by (simp add: setup_script_def issued_simps)
qed

lemma try_setup_error:
  assumes "try_setup p M = (Inl e, tr)"
  shows "\<exists>dn q rest. setup_script M (ledger_version p) = dn @ q # rest
           \<and> tr = Connect # issued (dn @ [q])
           \<and> respond p (Connect # issued dn) (fst q) (snd q) = Inl e"
proof (cases "respond p [Connect] (JStr ''BEGIN'') []")
  case (Inl e0)
  with assms have "e0 = e" "tr = [Connect, Query (JStr ''BEGIN'') []]"
    by (simp_all add: try_setup_cases)
  with Inl have "setup_script M (ledger_version p) =
        [] @ (JStr ''BEGIN'', []) # tl (setup_script M (ledger_version p))
      \<and> tr = Connect # issued ([] @ [(JStr ''BEGIN'', [])])
      \<and> respond p (Connect # issued []) (fst (JStr ''BEGIN'', [])) (snd (JStr ''BEGIN'', [])) = Inl e"
    by (simp add: setup_script_def issued_simps)
  then show ?thesis by blast
next
  case (Inr r)
  let ?sel = "(JStr ''SELECT v FROM checkpoint_migrations ORDER BY v DESC LIMIT 1'', [] :: jsval list)"
  let ?pre = "[Connect, Query (JStr ''BEGIN'') [], Query (fst ?sel) []]"
  show ?thesis
  proof (cases "try_setup p M = (Inl e, ?pre)
                 \<and> respond p [Connect, Query (JStr ''BEGIN'') []] (fst ?sel) [] = Inl e")
    case True
    with assms have "setup_script M (ledger_version p) =
        [(JStr ''BEGIN'', [])] @ ?sel # (migration_steps M (ledger_version p) @ [(JStr ''COMMIT'', [])])
      \<and> tr = Connect # issued ([(JStr ''BEGIN'', [])] @ [?sel])
      \<and> respond p (Connect # issued [(JStr ''BEGIN'', [])]) (fst ?sel) (snd ?sel) = Inl e"
      by (simp add: setup_script_def issued_simps)
    then show ?thesis by blast
  next
    case False
    have "run_script p (migration_steps M (ledger_version p) @ [(JStr ''COMMIT'', [])]) ?pre = (Inl e, tr)"
      using assms Inr False unfolding try_setup_cases ledger_version_def
      by (auto split: sum.splits if_splits)
    from run_script_error [OF this] obtain dn q rest where
      *: "migration_steps M (ledger_version p) @ [(JStr ''COMMIT'', [])] = dn @ q # rest"
         "tr = ?pre @ issued (dn @ [q])"
         "respond p (?pre @ issued dn) (fst q) (snd q) = Inl e"
      by blast
    then have "setup_script M (ledger_version p) = ([(JStr ''BEGIN'', []), ?sel] @ dn) @ q # rest
      \<and> tr = Connect # issued (([(JStr ''BEGIN'', []), ?sel] @ dn) @ [q])
      \<and> respond p (Connect # issued ([(JStr ''BEGIN'', []), ?sel] @ dn)) (fst q) (snd q) = Inl e"
      by (simp add: setup_script_def issued_simps)
    then show ?thesis by blast
  qed
qed

lemma rollback_release_result:
  "rollback_release p (r, tr) =
     (case r of
        Inr x \<Rightarrow> (Inr x, tr @ [Release])
      | Inl e \<Rightarrow> (Inl (case respond p tr (JStr ''ROLLBACK'') [] of Inl e' \<Rightarrow> e' | Inr rows \<Rightarrow> e),
                  tr @ [Query (JStr ''ROLLBACK'') [], Release]))"
  by (simp add: rollback_release_def client_query_def split: sum.splits)

text \<open>
  C5. \<open>saver_setup\<close> on a pool that hands out a connection. (1) A run that succeeds
  has sent exactly \<open>BEGIN\<close>, the read of the highest applied version, then for every
  index from that version plus one to the end of the list the migration and the insert of
  its index into the ledger, then \<open>COMMIT\<close>, and released the connection; the version is
  the \<open>v\<close> of the first row read, and \<open>-1\<close> when no row is read or the read failed.
  (2) A run that fails has sent a prefix of that script whose last statement the store
  answered with an error, then \<open>ROLLBACK\<close>, and released the connection: \<open>COMMIT\<close> has
  not succeeded; the error thrown is that of the failed statement, or that of the
  rollback when the rollback fails too. (3) A failure of the read whose message does not
  contain \<open>relation "checkpoint_migrations" does not exist\<close> is rethrown: no migration is
  sent. (4) When the store answers every other statement, and the read either succeeds or
  fails with that message, the run succeeds.
\<close>

theorem setup_migrates_in_one_transaction:
  assumes "connect p = None"
  shows
    \<open>(fst (saver_setup p M) = Inr () \<longrightarrow>
        snd (saver_setup p M) = Connect # issued (setup_script M (ledger_version p)) @ [Release])
     \<and> (\<forall>e. fst (saver_setup p M) = Inl e \<longrightarrow>
          (\<exists>dn q rest e'.
             setup_script M (ledger_version p) = dn @ q # rest
             \<and> snd (saver_setup p M) =
                 Connect # issued (dn @ [q]) @ [Query (JStr ''ROLLBACK'') [], Release]
             \<and> respond p (Connect # issued dn) (fst q) (snd q) = Inl e'
             \<and> e = (case respond p (Connect # issued (dn @ [q])) (JStr ''ROLLBACK'') [] of
                      Inl e'' \<Rightarrow> e'' | Inr rows \<Rightarrow> e')))
     \<and> (\<forall>r e. respond p [Connect] (JStr ''BEGIN'') [] = Inr r \<longrightarrow>
           respond p [Connect, Query (JStr ''BEGIN'') []]
             (JStr ''SELECT v FROM checkpoint_migrations ORDER BY v DESC LIMIT 1'') [] = Inl e \<longrightarrow>
           \<not> str_includes (message e) ''relation "checkpoint_migrations" does not exist'' \<longrightarrow>
           saver_setup p M =
             (Inl (case respond p [Connect, Query (JStr ''BEGIN'') [],
                          Query (JStr ''SELECT v FROM checkpoint_migrations ORDER BY v DESC LIMIT 1'') []]
                        (JStr ''ROLLBACK'') [] of Inl e'' \<Rightarrow> e'' | Inr rows \<Rightarrow> e),
              [Connect, Query (JStr ''BEGIN'') [],
               Query (JStr ''SELECT v FROM checkpoint_migrations ORDER BY v DESC LIMIT 1'') [],
               Query (JStr ''ROLLBACK'') [], Release]))
     \<and> ((\<forall>tr t a. (tr, t, a) \<noteq> ([Connect, Query (JStr ''BEGIN'') []],
                        JStr ''SELECT v FROM checkpoint_migrations ORDER BY v DESC LIMIT 1'', [])
                    \<longrightarrow> (\<exists>rows. respond p tr t a = Inr rows)) \<longrightarrow>
         (\<forall>e. respond p [Connect, Query (JStr ''BEGIN'') []]
                 (JStr ''SELECT v FROM checkpoint_migrations ORDER BY v DESC LIMIT 1'') [] = Inl e \<longrightarrow>
              str_includes (message e) ''relation "checkpoint_migrations" does not exist'') \<longrightarrow>
         fst (saver_setup p M) = Inr ())\<close>
proof (intro conjI allI impI)
  assume "fst (saver_setup p M) = Inr ()"
  then obtain tr where "try_setup p M = (Inr (), tr)"
    using assms
    by (cases "try_setup p M") (auto simp: saver_setup_try rollback_release_result split: sum.splits)
  then show "snd (saver_setup p M) = Connect # issued (setup_script M (ledger_version p)) @ [Release]"
    using assms try_setup_ok [of p M "()" tr]
    by (simp add: saver_setup_try rollback_release_result)
next
  fix e assume "fst (saver_setup p M) = Inl e"
  then obtain e' tr where t: "try_setup p M = (Inl e', tr)"
    and e: "e = (case respond p tr (JStr ''ROLLBACK'') [] of Inl e'' \<Rightarrow> e'' | Inr rows \<Rightarrow> e')"
    using assms
    by (cases "try_setup p M") (auto simp: saver_setup_try rollback_release_result split: sum.splits)
  from try_setup_error [OF t] obtain dn q rest where
    *: "setup_script M (ledger_version p) = dn @ q # rest" "tr = Connect # issued (dn @ [q])"
       "respond p (Connect # issued dn) (fst q) (snd q) = Inl e'"
    by blast
  have "snd (saver_setup p M) = Connect # issued (dn @ [q]) @ [Query (JStr ''ROLLBACK'') [], Release]"
    using assms t * by (simp add: saver_setup_try rollback_release_result)
  with * e show "\<exists>dn q rest e'.
             setup_script M (ledger_version p) = dn @ q # rest
             \<and> snd (saver_setup p M) =
                 Connect # issued (dn @ [q]) @ [Query (JStr ''ROLLBACK'') [], Release]
             \<and> respond p (Connect # issued dn) (fst q) (snd q) = Inl e'
             \<and> e = (case respond p (Connect # issued (dn @ [q])) (JStr ''ROLLBACK'') [] of
                      Inl e'' \<Rightarrow> e'' | Inr rows \<Rightarrow> e')"
    by blast
next
  fix r e
  assume "respond p [Connect] (JStr ''BEGIN'') [] = Inr r"
    and "respond p [Connect, Query (JStr ''BEGIN'') []]
             (JStr ''SELECT v FROM checkpoint_migrations ORDER BY v DESC LIMIT 1'') [] = Inl e"
    and \<open>\<not> str_includes (message e) ''relation "checkpoint_migrations" does not exist''\<close>
  then show "saver_setup p M =
             (Inl (case respond p [Connect, Query (JStr ''BEGIN'') [],
                          Query (JStr ''SELECT v FROM checkpoint_migrations ORDER BY v DESC LIMIT 1'') []]
                        (JStr ''ROLLBACK'') [] of Inl e'' \<Rightarrow> e'' | Inr rows \<Rightarrow> e),
              [Connect, Query (JStr ''BEGIN'') [],
               Query (JStr ''SELECT v FROM checkpoint_migrations ORDER BY v DESC LIMIT 1'') [],
               Query (JStr ''ROLLBACK'') [], Release])"
    using assms by (simp add: saver_setup_try try_setup_cases rollback_release_result)
next
  let ?sel = "JStr ''SELECT v FROM checkpoint_migrations ORDER BY v DESC LIMIT 1''"
  let ?pre = "[Connect, Query (JStr ''BEGIN'') [], Query ?sel []]"
  assume ok: "\<forall>tr t a. (tr, t, a) \<noteq> ([Connect, Query (JStr ''BEGIN'') []], ?sel, [])
                    \<longrightarrow> (\<exists>rows. respond p tr t a = Inr rows)"
    and rd: \<open>\<forall>e. respond p [Connect, Query (JStr ''BEGIN'') []] ?sel [] = Inl e \<longrightarrow>
              str_includes (message e) ''relation "checkpoint_migrations" does not exist''\<close>
  have scr: "\<And>qs tr. length tr \<ge> 3 \<Longrightarrow> run_script p qs tr = (Inr (), tr @ issued qs)"
  proof -
    fix qs :: "stmt list" and tr :: "event list"
    show "length tr \<ge> 3 \<Longrightarrow> run_script p qs tr = (Inr (), tr @ issued qs)"
    proof (induction qs arbitrary: tr)
      case Nil
      then show ?case by (simp add: run_script_Nil issued_simps)
    next
      case (Cons q qs)
      from Cons.prems have "(tr, fst q, snd q) \<noteq> ([Connect, Query (JStr ''BEGIN'') []], ?sel, [])"
        by auto
      with ok obtain rows where "respond p tr (fst q) (snd q) = Inr rows" by blast
      moreover have "run_script p qs (tr @ [Query (fst q) (snd q)]) =
            (Inr (), (tr @ [Query (fst q) (snd q)]) @ issued qs)"
        using Cons.prems by (intro Cons.IH) simp
      ultimately show ?case by (simp add: run_script_Cons issued_simps)
    qed
  qed
  obtain r where b: "respond p [Connect] (JStr ''BEGIN'') [] = Inr r"
    using ok by (metis list.inject list.distinct(1) prod.inject)
  have "fst (try_setup p M) = Inr ()"
    using b rd by (auto simp: try_setup_cases scr split: sum.splits)
  then show "fst (saver_setup p M) = Inr ()"
    using assms
    by (cases "try_setup p M") (auto simp: saver_setup_try rollback_release_result)
qed

theorem setup_migrates_in_one_transaction_witness:
  \<open>connect fresh_store = None
   \<and> saver_setup fresh_store [''m0'', ''m1''] =
       (Inr (),
        [Connect, Query (JStr ''BEGIN'') [],
         Query (JStr ''SELECT v FROM checkpoint_migrations ORDER BY v DESC LIMIT 1'') [],
         Query (JStr ''m0'') [],
         Query (JStr ''INSERT INTO checkpoint_migrations (v) VALUES ($1)'') [JNum 0],
         Query (JStr ''m1'') [],
         Query (JStr ''INSERT INTO checkpoint_migrations (v) VALUES ($1)'') [JNum 1],
         Query (JStr ''COMMIT'') [], Release])
   \<and> connect timeout_store = None
   \<and> saver_setup timeout_store [''m0'', ''m1''] =
       (Inl (Error ''canceling statement due to statement timeout''),
        [Connect, Query (JStr ''BEGIN'') [],
         Query (JStr ''SELECT v FROM checkpoint_migrations ORDER BY v DESC LIMIT 1'') [],
         Query (JStr ''ROLLBACK'') [], Release])
   \<and> connect broken_store = None
   \<and> fst (saver_setup broken_store [''m0'', ''m1'', ''m2'']) = Inl (Error ''syntax error'')
   \<and> (\<exists>dn q rest.
         setup_script [''m0'', ''m1'', ''m2''] (ledger_version broken_store) = dn @ q # rest
         \<and> snd (saver_setup broken_store [''m0'', ''m1'', ''m2'']) =
             Connect # issued (dn @ [q]) @ [Query (JStr ''ROLLBACK'') [], Release])\<close>
proof -
  let ?sel = "JStr ''SELECT v FROM checkpoint_migrations ORDER BY v DESC LIMIT 1''"
  have c1: "connect fresh_store = None" and c2: "connect timeout_store = None"
    and c3: "connect broken_store = None"
    by (simp_all add: fresh_store_def timeout_store_def broken_store_def)
  have ok: "\<forall>tr t a. (tr, t, a) \<noteq> ([Connect, Query (JStr ''BEGIN'') []], ?sel, [])
                    \<longrightarrow> (\<exists>rows. respond fresh_store tr t a = Inr rows)"
    by (simp add: fresh_store_def)
  have rd: \<open>\<forall>e. respond fresh_store [Connect, Query (JStr ''BEGIN'') []] ?sel [] = Inl e \<longrightarrow>
              str_includes (message e) ''relation "checkpoint_migrations" does not exist''\<close>
    by (simp add: fresh_store_def)
  have lv: "ledger_version fresh_store = - 1"
    by (simp add: ledger_version_def fresh_store_def)
  have sc: "setup_script [''m0'', ''m1''] (- 1) =
      [(JStr ''BEGIN'', []), (?sel, []),
       (JStr ''m0'', []), (JStr ''INSERT INTO checkpoint_migrations (v) VALUES ($1)'', [JNum 0]),
       (JStr ''m1'', []), (JStr ''INSERT INTO checkpoint_migrations (v) VALUES ($1)'', [JNum 1]),
       (JStr ''COMMIT'', [])]"
    by code_simp
  have fresh: "saver_setup fresh_store [''m0'', ''m1''] =
       (Inr (),
        [Connect, Query (JStr ''BEGIN'') [], Query ?sel [],
         Query (JStr ''m0'') [],
         Query (JStr ''INSERT INTO checkpoint_migrations (v) VALUES ($1)'') [JNum 0],
         Query (JStr ''m1'') [],
         Query (JStr ''INSERT INTO checkpoint_migrations (v) VALUES ($1)'') [JNum 1],
         Query (JStr ''COMMIT'') [], Release])"
    using setup_migrates_in_one_transaction [OF c1, of "[''m0'', ''m1'']"] ok rd
    by (simp add: lv sc issued_simps prod_eq_iff)
  have b: "respond timeout_store [Connect] (JStr ''BEGIN'') [] = Inr []"
    and t: "respond timeout_store [Connect, Query (JStr ''BEGIN'') []] ?sel [] =
              Inl (Error ''canceling statement due to statement timeout'')"
    and rb: "respond timeout_store [Connect, Query (JStr ''BEGIN'') [], Query ?sel []] (JStr ''ROLLBACK'') []
              = Inr []"
    by (simp_all add: timeout_store_def)
  have nm: \<open>\<not> str_includes (message (Error ''canceling statement due to statement timeout''))
              ''relation "checkpoint_migrations" does not exist''\<close>
    by simp
  have timeout: "saver_setup timeout_store [''m0'', ''m1''] =
       (Inl (Error ''canceling statement due to statement timeout''),
        [Connect, Query (JStr ''BEGIN'') [], Query ?sel [], Query (JStr ''ROLLBACK'') [], Release])"
    using setup_migrates_in_one_transaction [OF c2, of "[''m0'', ''m1'']"] b t nm
    by (simp add: rb)
  have br: "fst (saver_setup broken_store [''m0'', ''m1'', ''m2'']) = Inl (Error ''syntax error'')"
    by code_simp
  have broken: "\<exists>dn q rest.
         setup_script [''m0'', ''m1'', ''m2''] (ledger_version broken_store) = dn @ q # rest
         \<and> snd (saver_setup broken_store [''m0'', ''m1'', ''m2'']) =
             Connect # issued (dn @ [q]) @ [Query (JStr ''ROLLBACK'') [], Release]"
    using setup_migrates_in_one_transaction [OF c3, of "[''m0'', ''m1'', ''m2'']"] br
    by blast
  from c1 c2 c3 fresh timeout br broken show ?thesis by blast
qed

subsection \<open>Pending writes\<close>

lemma rollback_release_events:
  "set (snd (rollback_release p (r, tr))) \<subseteq> set tr \<union> {Query (JStr ''ROLLBACK'') [], Release}"
  by (auto simp: rollback_release_result split: sum.splits)

lemma putWrites_script:
  "connect p = None \<Longrightarrow>
   putWrites q W p sd config writes taskId =
     rollback_release p
       (run_script p
          [(JStr ''BEGIN'', []),
           (JStr (putWrites_query q W writes),
            map JArr (dumpWrites W sd
                        (opt_prop (configurable config) ''thread_id'')
                        (opt_prop (configurable config) ''checkpoint_ns'')
                        (opt_prop (configurable config) ''checkpoint_id'')
                        taskId writes)),
           (JStr ''COMMIT'', [])]
          [Connect])"
  by (simp add: putWrites_def Let_def run_script_Cons run_script_Nil then_do_def client_query_def
        split: sum.splits)

lemma run_script_events:
  "set (snd (run_script p qs tr)) \<subseteq> set tr \<union> set (issued qs)"
proof (induction qs arbitrary: tr)
  case Nil
  then show ?case by (simp add: run_script_Nil)
next
  case (Cons q qs)
  show ?case
  proof (cases "respond p tr (fst q) (snd q)")
    case (Inl e)
    then show ?thesis by (auto simp: run_script_Cons issued_simps)
  next
    case (Inr rows)
    then show ?thesis
      using Cons.IH [of "tr @ [Query (fst q) (snd q)]"]
      by (auto simp: run_script_Cons issued_simps)
  qed
qed

lemma putWrites_events:
  "set (snd (putWrites q W p sd config writes taskId)) \<subseteq>
     {Connect, Release, Query (JStr ''BEGIN'') [], Query (JStr ''COMMIT'') [],
      Query (JStr ''ROLLBACK'') [],
      Query (JStr (putWrites_query q W writes))
        (map JArr (dumpWrites W sd
                        (opt_prop (configurable config) ''thread_id'')
                        (opt_prop (configurable config) ''checkpoint_ns'')
                        (opt_prop (configurable config) ''checkpoint_id'')
                        taskId writes))}"
proof (cases "connect p")
  case (Some e)
  then show ?thesis by (simp add: putWrites_def)
next
  case None
  let ?qs = "[(JStr ''BEGIN'', []),
           (JStr (putWrites_query q W writes),
            map JArr (dumpWrites W sd
                        (opt_prop (configurable config) ''thread_id'')
                        (opt_prop (configurable config) ''checkpoint_ns'')
                        (opt_prop (configurable config) ''checkpoint_id'')
                        taskId writes)),
           (JStr ''COMMIT'', [])]"
  obtain r tr where rs: "run_script p ?qs [Connect] = (r, tr)" by (cases "run_script p ?qs [Connect]")
  have "set tr \<subseteq> set [Connect] \<union> set (issued ?qs)"
    using run_script_events [of p ?qs "[Connect]"] rs by simp
  moreover have "set (snd (rollback_release p (r, tr))) \<subseteq> set tr \<union> {Query (JStr ''ROLLBACK'') [], Release}"
    by (rule rollback_release_events)
  ultimately show ?thesis
    unfolding putWrites_script [OF None] rs
    by (auto simp: issued_simps)
qed

lemma putWrites_sends_query:
  assumes "connect p = None" "respond p [Connect] (JStr ''BEGIN'') [] = Inr r"
  shows "take 3 (snd (putWrites q W p sd config writes taskId)) =
     [Connect, Query (JStr ''BEGIN'') [],
      Query (JStr (putWrites_query q W writes))
        (map JArr (dumpWrites W sd
                        (opt_prop (configurable config) ''thread_id'')
                        (opt_prop (configurable config) ''checkpoint_ns'')
                        (opt_prop (configurable config) ''checkpoint_id'')
                        taskId writes))]"
  using assms
  by (simp add: putWrites_script run_script_Cons run_script_Nil rollback_release_result
        split: sum.splits)

lemma putWrites_query_iff:
  "putWrites_query q W writes =
     (if \<forall>w \<in> set writes. table_in W (fst w)
      then UPSERT_CHECKPOINT_WRITES_SQL q else INSERT_CHECKPOINT_WRITES_SQL q)"
  by (auto simp: putWrites_query_def list_all_iff)

lemma table_in_other_name: "k \<notin> set object_prototype \<Longrightarrow> table_in W k \<longleftrightarrow> k \<in> dom W"
  by (auto simp: table_in_def)

text \<open>
  For batches whose channel names \<^verbatim>\<open>Object.prototype\<close> does not have, the statement
  \<open>putWrites\<close> chooses is the upserting one if and only if every write of the batch names
  a channel of the reserved-name table, and the insert-only one otherwise (the two
  statements being different texts). For every batch, the chosen statement is the only
  one \<open>putWrites\<close> sends besides \<open>BEGIN\<close>, \<open>COMMIT\<close> and \<open>ROLLBACK\<close>, and it is sent,
  with the rows of \<open>dumpWrites\<close>, as soon as the transaction has begun.
\<close>

lemma putWrites_query_choice_other_names:
  assumes "UPSERT_CHECKPOINT_WRITES_SQL q \<noteq> INSERT_CHECKPOINT_WRITES_SQL q"
    and names: "\<forall>w \<in> set writes. fst w \<notin> set object_prototype"
  shows "(putWrites_query q W writes = UPSERT_CHECKPOINT_WRITES_SQL q
            \<longleftrightarrow> (\<forall>w \<in> set writes. fst w \<in> dom W))
       \<and> (putWrites_query q W writes = INSERT_CHECKPOINT_WRITES_SQL q
            \<longleftrightarrow> \<not> (\<forall>w \<in> set writes. fst w \<in> dom W))
       \<and> set (snd (putWrites q W p sd config writes taskId)) \<subseteq>
           {Connect, Release, Query (JStr ''BEGIN'') [], Query (JStr ''COMMIT'') [],
            Query (JStr ''ROLLBACK'') [],
            Query (JStr (putWrites_query q W writes))
              (map JArr (dumpWrites W sd
                           (opt_prop (configurable config) ''thread_id'')
                           (opt_prop (configurable config) ''checkpoint_ns'')
                           (opt_prop (configurable config) ''checkpoint_id'')
                           taskId writes))}
       \<and> (connect p = None \<longrightarrow> (\<exists>r. respond p [Connect] (JStr ''BEGIN'') [] = Inr r) \<longrightarrow>
            take 3 (snd (putWrites q W p sd config writes taskId)) =
              [Connect, Query (JStr ''BEGIN'') [],
               Query (JStr (putWrites_query q W writes))
                 (map JArr (dumpWrites W sd
                              (opt_prop (configurable config) ''thread_id'')
                              (opt_prop (configurable config) ''checkpoint_ns'')
                              (opt_prop (configurable config) ''checkpoint_id'')
                              taskId writes))])"
proof (intro conjI impI)
  have all: "(\<forall>w \<in> set writes. table_in W (fst w)) \<longleftrightarrow> (\<forall>w \<in> set writes. fst w \<in> dom W)"
    using names by (auto simp: table_in_other_name)
  show "putWrites_query q W writes = UPSERT_CHECKPOINT_WRITES_SQL q
            \<longleftrightarrow> (\<forall>w \<in> set writes. fst w \<in> dom W)"
    using assms(1) by (simp add: putWrites_query_iff all)
  show "putWrites_query q W writes = INSERT_CHECKPOINT_WRITES_SQL q
            \<longleftrightarrow> \<not> (\<forall>w \<in> set writes. fst w \<in> dom W)"
    using assms(1) by (simp add: putWrites_query_iff all)
  show "set (snd (putWrites q W p sd config writes taskId)) \<subseteq>
           {Connect, Release, Query (JStr ''BEGIN'') [], Query (JStr ''COMMIT'') [],
            Query (JStr ''ROLLBACK'') [],
            Query (JStr (putWrites_query q W writes))
              (map JArr (dumpWrites W sd
                           (opt_prop (configurable config) ''thread_id'')
                           (opt_prop (configurable config) ''checkpoint_ns'')
                           (opt_prop (configurable config) ''checkpoint_id'')
                           taskId writes))}"
    by (rule putWrites_events)
next
  assume "connect p = None" "\<exists>r. respond p [Connect] (JStr ''BEGIN'') [] = Inr r"
  then show "take 3 (snd (putWrites q W p sd config writes taskId)) =
              [Connect, Query (JStr ''BEGIN'') [],
               Query (JStr (putWrites_query q W writes))
                 (map JArr (dumpWrites W sd
                              (opt_prop (configurable config) ''thread_id'')
                              (opt_prop (configurable config) ''checkpoint_ns'')
                              (opt_prop (configurable config) ''checkpoint_id'')
                              taskId writes))]"
    using putWrites_sends_query by blast
qed

lemma putWrites_query_choice_example:
  "UPSERT_CHECKPOINT_WRITES_SQL example_sql \<noteq> INSERT_CHECKPOINT_WRITES_SQL example_sql
   \<and> putWrites_query example_sql [''__error__'' \<mapsto> - 1] [(''__error__'', JNum 3)]
       = UPSERT_CHECKPOINT_WRITES_SQL example_sql
   \<and> putWrites_query example_sql [''__error__'' \<mapsto> - 1] [(''__error__'', JNum 3), (''custom_chan'', JNum 4)]
       = INSERT_CHECKPOINT_WRITES_SQL example_sql
   \<and> take 3 (snd (putWrites example_sql [''__error__'' \<mapsto> - 1] (table_pool example_sql []) num_serde
                \<lparr>configurable = Some [(''thread_id'', JStr ''t1'')]\<rparr>
                [(''__error__'', JNum 3), (''custom_chan'', JNum 4)] ''task'')) =
       [Connect, Query (JStr ''BEGIN'') [],
        Query (JStr (INSERT_CHECKPOINT_WRITES_SQL example_sql))
          [JArr [JStr ''t1'', JUndefined, JUndefined, JStr ''task'', JNum (- 1), JStr ''__error__'',
                 JStr ''num'', JBytes [3]],
           JArr [JStr ''t1'', JUndefined, JUndefined, JStr ''task'', JNum 1, JStr ''custom_chan'',
                 JStr ''num'', JBytes [4]]]]"
proof -
  have ne: "UPSERT_CHECKPOINT_WRITES_SQL example_sql \<noteq> INSERT_CHECKPOINT_WRITES_SQL example_sql"
    by (simp add: example_sql_def)
  have c: "connect (table_pool example_sql []) = None"
    and b: "\<exists>r. respond (table_pool example_sql []) [Connect] (JStr ''BEGIN'') [] = Inr r"
    by (simp_all add: table_pool_def str_of_def example_sql_def)
  have dw: "dumpWrites [''__error__'' \<mapsto> - 1] num_serde (JStr ''t1'') JUndefined JUndefined ''task''
              [(''__error__'', JNum 3), (''custom_chan'', JNum 4)] =
            [[JStr ''t1'', JUndefined, JUndefined, JStr ''task'', JNum (- 1), JStr ''__error__'',
                 JStr ''num'', JBytes [3]],
             [JStr ''t1'', JUndefined, JUndefined, JStr ''task'', JNum 1, JStr ''custom_chan'',
                 JStr ''num'', JBytes [4]]]"
    by (simp add: dumpWrites_def enumerate_simps num_serde_def table_get_other_name
          not_inherited_examples)
  have n1: "\<forall>w \<in> set [(''__error__'', JNum 3)]. fst w \<notin> set object_prototype"
    and n2: "\<forall>w \<in> set [(''__error__'', JNum 3), (''custom_chan'', JNum 4)].
               fst w \<notin> set object_prototype"
    by (simp_all add: not_inherited_examples)
  have all1: "\<forall>w \<in> set [(''__error__'', JNum 3)]. fst w \<in> dom [''__error__'' \<mapsto> (- 1 :: int)]"
    by simp
  have all2: "\<not> (\<forall>w \<in> set [(''__error__'', JNum 3), (''custom_chan'', JNum 4)].
                   fst w \<in> dom [''__error__'' \<mapsto> (- 1 :: int)])"
    by simp
  have q1: "putWrites_query example_sql [''__error__'' \<mapsto> - 1] [(''__error__'', JNum 3)]
       = UPSERT_CHECKPOINT_WRITES_SQL example_sql"
    using putWrites_query_choice_other_names [OF ne n1, of "[''__error__'' \<mapsto> - 1]"] all1
    by blast
  have q2: "putWrites_query example_sql [''__error__'' \<mapsto> - 1]
              [(''__error__'', JNum 3), (''custom_chan'', JNum 4)]
       = INSERT_CHECKPOINT_WRITES_SQL example_sql"
    using putWrites_query_choice_other_names [OF ne n2, of "[''__error__'' \<mapsto> - 1]"] all2
    by blast
  have t: "take 3 (snd (putWrites example_sql [''__error__'' \<mapsto> - 1] (table_pool example_sql []) num_serde
                \<lparr>configurable = Some [(''thread_id'', JStr ''t1'')]\<rparr>
                [(''__error__'', JNum 3), (''custom_chan'', JNum 4)] ''task'')) =
       [Connect, Query (JStr ''BEGIN'') [],
        Query (JStr (putWrites_query example_sql [''__error__'' \<mapsto> - 1]
                 [(''__error__'', JNum 3), (''custom_chan'', JNum 4)]))
          (map JArr (dumpWrites [''__error__'' \<mapsto> - 1] num_serde
             (opt_prop (configurable \<lparr>configurable = Some [(''thread_id'', JStr ''t1'')]\<rparr>) ''thread_id'')
             (opt_prop (configurable \<lparr>configurable = Some [(''thread_id'', JStr ''t1'')]\<rparr>) ''checkpoint_ns'')
             (opt_prop (configurable \<lparr>configurable = Some [(''thread_id'', JStr ''t1'')]\<rparr>) ''checkpoint_id'')
             ''task'' [(''__error__'', JNum 3), (''custom_chan'', JNum 4)]))]"
    using putWrites_query_choice_other_names [OF ne n2, of "[''__error__'' \<mapsto> - 1]"
        "table_pool example_sql []" num_serde
        "\<lparr>configurable = Some [(''thread_id'', JStr ''t1'')]\<rparr>" "''task''"] c b
    by blast
  show ?thesis
    using ne q1 q2 t by (simp add: dw opt_prop_def get_prop_def)
qed

text \<open>
  C4, where the code departs from it. The test \<^verbatim>\<open>w[0] in WRITES_IDX_MAP\<close> also finds the
  names of \<^verbatim>\<open>Object.prototype\<close>. For the batch of one write to the channel
  \<open>constructor\<close>, which no entry of the table names, \<open>putWrites\<close> chooses the upserting
  statement, whatever the other entries of the table; on a store that answers every
  statement it sends that statement right after \<open>BEGIN\<close>, and not the insert-only one.
\<close>

theorem putWrites_query_inherited_name:
  "putWrites_query q (W(''constructor'' := None)) [(''constructor'', v0)] =
     UPSERT_CHECKPOINT_WRITES_SQL q
   \<and> example_table ''constructor'' = None
   \<and> UPSERT_CHECKPOINT_WRITES_SQL example_sql \<noteq> INSERT_CHECKPOINT_WRITES_SQL example_sql
   \<and> take 3 (snd (putWrites example_sql example_table (table_pool example_sql []) num_serde
                \<lparr>configurable = Some [(''thread_id'', JStr ''t1'')]\<rparr>
                [(''constructor'', JNum 7)] ''task'')) =
       [Connect, Query (JStr ''BEGIN'') [],
        Query (JStr (UPSERT_CHECKPOINT_WRITES_SQL example_sql))
          [JArr [JStr ''t1'', JUndefined, JUndefined, JStr ''task'', JInherited ''constructor'',
                 JStr ''constructor'', JStr ''num'', JBytes [7]]]]"
proof -
  have q: "\<And>q W v0. putWrites_query q (W(''constructor'' := None)) [(''constructor'', v0)] =
     UPSERT_CHECKPOINT_WRITES_SQL q"
    by (simp add: putWrites_query_def table_in_def constructor_inherited)
  have e: "example_table ''constructor'' = None"
    by (simp add: example_table_def)
  have qe: "putWrites_query example_sql example_table [(''constructor'', JNum 7)] =
     UPSERT_CHECKPOINT_WRITES_SQL example_sql"
    by (simp add: putWrites_query_def table_in_def constructor_inherited)
  have ne: "UPSERT_CHECKPOINT_WRITES_SQL example_sql \<noteq> INSERT_CHECKPOINT_WRITES_SQL example_sql"
    by (simp add: example_sql_def)
  have c: "connect (table_pool example_sql []) = None"
    and b: "respond (table_pool example_sql []) [Connect] (JStr ''BEGIN'') [] = Inr []"
    by (simp_all add: table_pool_def str_of_def example_sql_def)
  have dw: "dumpWrites example_table num_serde (JStr ''t1'') JUndefined JUndefined ''task''
              [(''constructor'', JNum 7)] =
            [[JStr ''t1'', JUndefined, JUndefined, JStr ''task'', JInherited ''constructor'',
              JStr ''constructor'', JStr ''num'', JBytes [7]]]"
    by (simp add: dumpWrites_def enumerate_simps num_serde_def table_get_def e constructor_inherited)
  have t: "take 3 (snd (putWrites example_sql example_table (table_pool example_sql []) num_serde
                \<lparr>configurable = Some [(''thread_id'', JStr ''t1'')]\<rparr>
                [(''constructor'', JNum 7)] ''task'')) =
       [Connect, Query (JStr ''BEGIN'') [],
        Query (JStr (UPSERT_CHECKPOINT_WRITES_SQL example_sql))
          [JArr [JStr ''t1'', JUndefined, JUndefined, JStr ''task'', JInherited ''constructor'',
                 JStr ''constructor'', JStr ''num'', JBytes [7]]]]"
    using putWrites_sends_query [OF c b, of example_sql example_table num_serde
        "\<lparr>configurable = Some [(''thread_id'', JStr ''t1'')]\<rparr>" "[(''constructor'', JNum 7)]" "''task''"]
    by (simp add: qe dw opt_prop_def get_prop_def)
  from q e ne t show ?thesis by blast
qed

text \<open>
  C10. For an empty batch the test that every write is reserved holds vacuously:
  \<open>putWrites\<close> chooses the upserting statement and sends it with an empty list of rows
  once the transaction has begun; nothing else is sent besides \<open>BEGIN\<close>, \<open>COMMIT\<close> and
  \<open>ROLLBACK\<close>, so the insert-only statement is not used.
\<close>

theorem putWrites_empty_batch:
  "putWrites_query q W [] = UPSERT_CHECKPOINT_WRITES_SQL q
   \<and> set (snd (putWrites q W p sd config [] taskId)) \<subseteq>
       {Connect, Release, Query (JStr ''BEGIN'') [], Query (JStr ''COMMIT'') [],
        Query (JStr ''ROLLBACK'') [], Query (JStr (UPSERT_CHECKPOINT_WRITES_SQL q)) []}
   \<and> (connect p = None \<longrightarrow> (\<exists>r. respond p [Connect] (JStr ''BEGIN'') [] = Inr r) \<longrightarrow>
        take 3 (snd (putWrites q W p sd config [] taskId)) =
          [Connect, Query (JStr ''BEGIN'') [], Query (JStr (UPSERT_CHECKPOINT_WRITES_SQL q)) []])"
proof -
  have q: "putWrites_query q W [] = UPSERT_CHECKPOINT_WRITES_SQL q"
    by (simp add: putWrites_query_def)
  have d: "\<And>a b c. dumpWrites W sd a b c taskId [] = []"
    by (simp add: dumpWrites_def)
  show ?thesis
    using putWrites_events [of q W p sd config "[]" taskId]
      putWrites_sends_query [of p _ q W sd config "[]" taskId]
    by (auto simp: q d)
qed

theorem putWrites_empty_batch_witness:
  "connect (table_pool example_sql []) = None
   \<and> respond (table_pool example_sql []) [Connect] (JStr ''BEGIN'') [] = Inr []
   \<and> take 3 (snd (putWrites example_sql [''__error__'' \<mapsto> - 1] (table_pool example_sql []) num_serde
                \<lparr>configurable = Some [(''thread_id'', JStr ''t1'')]\<rparr> [] ''task'')) =
       [Connect, Query (JStr ''BEGIN'') [],
        Query (JStr (UPSERT_CHECKPOINT_WRITES_SQL example_sql)) []]"
proof -
  have c: "connect (table_pool example_sql []) = None"
    and b: "respond (table_pool example_sql []) [Connect] (JStr ''BEGIN'') [] = Inr []"
    by (simp_all add: table_pool_def str_of_def example_sql_def)
  show ?thesis
    using putWrites_empty_batch [of example_sql "[''__error__'' \<mapsto> - 1]" "table_pool example_sql []"
        num_serde "\<lparr>configurable = Some [(''thread_id'', JStr ''t1'')]\<rparr>" "''task''"] c b
    by simp
qed

subsection \<open>Saving a checkpoint\<close>

lemma upsert_blobs_script:
  "upsert_blobs p text rows tr = run_script p (map (\<lambda>b. (JStr text, b)) rows) tr"
  by (induction rows arbitrary: tr)
     (simp_all add: run_script_Nil run_script_Cons then_do_def client_query_def split: sum.splits)

lemma run_script_extends: "\<exists>ext. snd (run_script p qs tr) = tr @ ext"
proof (induction qs arbitrary: tr)
  case Nil
  then show ?case by (simp add: run_script_Nil)
next
  case (Cons q qs)
  show ?case
  proof (cases "respond p tr (fst q) (snd q)")
    case (Inl e)
    then show ?thesis by (simp add: run_script_Cons)
  next
    case (Inr rows)
    obtain ext where "snd (run_script p qs (tr @ [Query (fst q) (snd q)])) = (tr @ [Query (fst q) (snd q)]) @ ext"
      using Cons.IH by blast
    with Inr show ?thesis by (simp add: run_script_Cons)
  qed
qed

lemma rollback_release_extends: "\<exists>ext. snd (rollback_release p (r, tr)) = tr @ ext"
  by (cases r) (simp_all add: rollback_release_result)

lemma put_as_script:
  assumes "configurable config = Some cf" "connect p = None"
  shows "put q p sd config checkpoint metadata newVersions =
     rollback_release p
       (case run_script p (put_script q sd cf checkpoint metadata newVersions) [Connect] of
          (Inl e, tr) \<Rightarrow> (Inl e, tr)
        | (Inr u, tr) \<Rightarrow>
            (Inr \<lparr>configurable = Some
                    [(''thread_id'', get_prop cf ''thread_id''),
                     (''checkpoint_ns'',
                        if get_prop cf ''checkpoint_ns'' = JUndefined then JStr ''''
                        else get_prop cf ''checkpoint_ns''),
                     (''checkpoint_id'', get_prop checkpoint ''id'')]\<rparr>, tr))"
  using assms
  by (simp add: put_def Let_def put_script_def upsert_blobs_script run_script_append
        run_script_Cons run_script_Nil then_do_def client_query_def
        split: sum.splits prod.splits)

lemma put_requests_connection:
  assumes "configurable config = Some cf"
  shows "\<exists>ext. snd (put q p sd config checkpoint metadata newVersions) = Connect # ext"
proof (cases "connect p")
  case (Some e)
  with assms show ?thesis by (simp add: put_def Let_def)
next
  case None
  let ?body = "run_script p (put_script q sd cf checkpoint metadata newVersions) [Connect]"
  obtain r tr where b: "?body = (r, tr)" by (cases ?body)
  obtain ext where "tr = [Connect] @ ext"
    using run_script_extends [of p "put_script q sd cf checkpoint metadata newVersions" "[Connect]"] b
    by auto
  moreover obtain r' where "(case ?body of
          (Inl e, tr) \<Rightarrow> (Inl e, tr)
        | (Inr u, tr) \<Rightarrow>
            (Inr \<lparr>configurable = Some
                    [(''thread_id'', get_prop cf ''thread_id''),
                     (''checkpoint_ns'',
                        if get_prop cf ''checkpoint_ns'' = JUndefined then JStr ''''
                        else get_prop cf ''checkpoint_ns''),
                     (''checkpoint_id'', get_prop checkpoint ''id'')]\<rparr>, tr)) = (r', tr)"
    unfolding b by (cases r) simp_all
  moreover obtain ext' where "snd (rollback_release p (r', tr)) = tr @ ext'"
    using rollback_release_extends by blast
  ultimately show ?thesis
    unfolding put_as_script [OF assms None] by simp
qed

text \<open>
  C1, as the code has it. \<open>put\<close> fails with a configuration error whenever the config
  has no \<open>configurable\<close> field: it throws that error at once and does nothing on the
  store. When the field is there, with or without a thread id, \<open>put\<close> goes on and asks
  the pool for a connection.
\<close>

theorem put_configuration_error:
  \<open>(configurable config = None \<longrightarrow>
      put q p sd config checkpoint metadata newVersions =
        (Inl (Error ''Missing "configurable" field in "config" param''), []))
   \<and> (configurable config \<noteq> None \<longrightarrow>
        (\<exists>ext. snd (put q p sd config checkpoint metadata newVersions) = Connect # ext))\<close>
proof (intro conjI impI)
  assume "configurable config = None"
  then show \<open>put q p sd config checkpoint metadata newVersions =
        (Inl (Error ''Missing "configurable" field in "config" param''), [])\<close>
    by (simp add: put_def)
next
  assume "configurable config \<noteq> None"
  then obtain cf where "configurable config = Some cf" by blast
  then show "\<exists>ext. snd (put q p sd config checkpoint metadata newVersions) = Connect # ext"
    by (rule put_requests_connection)
qed

theorem put_configuration_error_witness:
  \<open>configurable \<lparr>configurable = None\<rparr> = None
   \<and> put example_sql (table_pool example_sql []) num_serde \<lparr>configurable = None\<rparr>
        [(''id'', JStr ''c1'')] [] (Some []) =
       (Inl (Error ''Missing "configurable" field in "config" param''), [])
   \<and> configurable \<lparr>configurable = Some [(''thread_id'', JStr ''t1'')]\<rparr> \<noteq> None
   \<and> hd (snd (put example_sql (table_pool example_sql []) num_serde
                 \<lparr>configurable = Some [(''thread_id'', JStr ''t1'')]\<rparr>
                 [(''id'', JStr ''c1'')] [] (Some []))) = Connect\<close>
  using put_configuration_error [of "\<lparr>configurable = None\<rparr>" example_sql "table_pool example_sql []"
      num_serde "[(''id'', JStr ''c1'')]" "[]" "Some []"]
    put_configuration_error [of "\<lparr>configurable = Some [(''thread_id'', JStr ''t1'')]\<rparr>" example_sql
      "table_pool example_sql []" num_serde "[(''id'', JStr ''c1'')]" "[]" "Some []"]
  by auto

text \<open>
  A config whose \<open>configurable\<close> carries no thread id is not rejected: on a store that
  answers every statement, \<open>put\<close> writes the checkpoint row with an undefined thread id
  and returns the next config.
\<close>

theorem put_without_thread_id_counterexample:
  \<open>get_prop [(''checkpoint_ns'', JStr ''inner'')] ''thread_id'' = JUndefined
   \<and> put example_sql (table_pool example_sql []) num_serde
        \<lparr>configurable = Some [(''checkpoint_ns'', JStr ''inner'')]\<rparr>
        [(''id'', JStr ''c1'')] [] (Some []) =
       (Inr \<lparr>configurable = Some [(''thread_id'', JUndefined), (''checkpoint_ns'', JStr ''inner''),
                                   (''checkpoint_id'', JStr ''c1'')]\<rparr>,
        [Connect, Query (JStr ''BEGIN'') [],
         Query (JStr (UPSERT_CHECKPOINTS_SQL example_sql))
           [JUndefined, JStr ''inner'', JStr ''c1'', JUndefined,
            JBytes (snd (dumpCheckpoint num_serde [(''id'', JStr ''c1'')])),
            JStr (dumpMetadata num_serde [])],
         Query (JStr ''COMMIT'') [], Release])\<close>
  by (simp add: put_def Let_def get_prop_def table_pool_def str_of_def example_sql_def dumpBlobs_def
        record_of_def rollback_release_def then_do_def client_query_def)

subsection \<open>Reading a checkpoint\<close>

lemma take1_rev: "ys \<noteq> [] \<Longrightarrow> take 1 (rev ys) = [last ys]"
  by (cases ys rule: rev_cases) auto

lemma sorted_le_last: "sorted ys \<Longrightarrow> y \<in> set ys \<Longrightarrow> y \<le> last ys"
  by (cases ys rule: rev_cases) (auto simp: sorted_append)

lemma latest_row:
  "take 1 (rev (sort_key f xs)) = (if xs = [] then [] else [last (sort_key f xs)])"
proof (cases "xs = []")
  case True
  then show ?thesis by simp
next
  case False
  then have "sort_key f xs \<noteq> []"
    by (metis length_0_conv length_sort)
  then have "take 1 (rev (sort_key f xs)) = [last (sort_key f xs)]"
    by (rule take1_rev)
  moreover have "(if xs = [] then [] else [last (sort_key f xs)]) = [last (sort_key f xs)]"
    using False by simp
  ultimately show ?thesis by (simp only:)
qed

lemma last_sort_key_max:
  assumes "xs \<noteq> []"
  shows "last (sort_key f xs) \<in> set xs \<and> (\<forall>y \<in> set xs. f y \<le> f (last (sort_key f xs)))"
proof -
  let ?ys = "sort_key f xs"
  have ne: "?ys \<noteq> []" using assms by (metis length_0_conv length_sort)
  have s: "set ?ys = set xs" by simp
  have srt: "sorted (map f ?ys)" by (rule sorted_sort_key)
  have m: "last ?ys \<in> set xs" using ne s last_in_set by blast
  have "\<forall>y \<in> set xs. f y \<le> f (last ?ys)"
  proof
    fix y assume "y \<in> set xs"
    then have "f y \<in> set (map f ?ys)" using s by auto
    with srt have "f y \<le> last (map f ?ys)" by (rule sorted_le_last)
    then show "f y \<le> f (last ?ys)" using ne by (simp add: last_map)
  qed
  with m show ?thesis by blast
qed

lemma table_pool_select:
  "client_query (table_pool q T) (JStr (SELECT_SQL q @ wher)) args [] =
     (Inr (select_rows T wher args), [Query (JStr (SELECT_SQL q @ wher)) args])"
  by (simp add: client_query_def table_pool_def str_of_def)

lemma get_prop_opt: "get_prop (case c of None \<Rightarrow> [] | Some cf \<Rightarrow> cf) k = opt_prop c k"
  by (cases c) (simp_all add: opt_prop_def get_prop_def)

lemma getTuple_exact:
  assumes "truthy (opt_prop (configurable config) ''checkpoint_id'')"
  shows "fst (getTuple q (table_pool q T) sd config) =
     (case filter (\<lambda>r. same_thread config r
                     \<and> opt_prop (configurable config) ''checkpoint_id'' = JStr (row_checkpoint_id r)) T of
        [] \<Rightarrow> Inr None
      | row # rest \<Rightarrow>
          Inr (Some (tuple_of_row sd (opt_prop (configurable config) ''thread_id'') (config_ns config) row)))"
  using assms
  by (simp add: getTuple_def Let_def get_prop_opt table_pool_select select_rows_def same_thread_def
        config_ns_def tuple_of_row_def cong: option.case_cong if_cong split: list.splits)

lemma getTuple_latest:
  assumes "\<not> truthy (opt_prop (configurable config) ''checkpoint_id'')"
  shows "fst (getTuple q (table_pool q T) sd config) =
     (if filter (same_thread config) T = [] then Inr None
      else Inr (Some (tuple_of_row sd (opt_prop (configurable config) ''thread_id'') (config_ns config)
                        (last (sort_key row_checkpoint_id (filter (same_thread config) T))))))"
proof -
  have sel: "select_rows T ''WHERE thread_id = $1 AND checkpoint_ns = $2 ORDER BY checkpoint_id DESC LIMIT 1''
          [opt_prop (configurable config) ''thread_id'', config_ns config] =
        (if filter (same_thread config) T = [] then []
         else [last (sort_key row_checkpoint_id (filter (same_thread config) T))])"
    unfolding select_rows_def latest_row
    by (simp add: same_thread_def [abs_def])
  show ?thesis
    using assms
    by (simp add: getTuple_def Let_def get_prop_opt table_pool_select sel [unfolded config_ns_def]
          config_ns_def tuple_of_row_def cong: option.case_cong if_cong split: list.splits)
qed

lemma getTuple_never_error:
  "\<exists>found. fst (getTuple q (table_pool q T) sd config) = Inr found"
  by (cases "truthy (opt_prop (configurable config) ''checkpoint_id'')")
     (auto simp: getTuple_exact getTuple_latest split: list.splits)

lemma getTuple_none_iff:
  "fst (getTuple q (table_pool q T) sd config) = Inr None \<longleftrightarrow>
     \<not> (\<exists>r \<in> set T. same_thread config r
           \<and> (truthy (opt_prop (configurable config) ''checkpoint_id'') \<longrightarrow>
                opt_prop (configurable config) ''checkpoint_id'' = JStr (row_checkpoint_id r)))"
proof (cases "truthy (opt_prop (configurable config) ''checkpoint_id'')")
  case True
  let ?P = "\<lambda>r. same_thread config r
                     \<and> opt_prop (configurable config) ''checkpoint_id'' = JStr (row_checkpoint_id r)"
  have "filter ?P T = [] \<longleftrightarrow> \<not> (\<exists>r \<in> set T. ?P r)"
    by (simp add: filter_empty_conv)
  moreover have "fst (getTuple q (table_pool q T) sd config) = Inr None \<longleftrightarrow> filter ?P T = []"
    by (cases "filter ?P T") (simp_all add: getTuple_exact [OF True])
  ultimately show ?thesis
    using True by simp
next
  case False
  have "filter (same_thread config) T = [] \<longleftrightarrow> \<not> (\<exists>r \<in> set T. same_thread config r)"
    by (simp add: filter_empty_conv)
  then show ?thesis
    using False by (simp add: getTuple_latest)
qed

lemma getTuple_some:
  assumes "fst (getTuple q (table_pool q T) sd config) = Inr (Some t)"
  shows "\<exists>r \<in> set T. same_thread config r
           \<and> (if truthy (opt_prop (configurable config) ''checkpoint_id'')
              then opt_prop (configurable config) ''checkpoint_id'' = JStr (row_checkpoint_id r)
              else (\<forall>r' \<in> set T. same_thread config r' \<longrightarrow> row_checkpoint_id r' \<le> row_checkpoint_id r))
           \<and> t = tuple_of_row sd (opt_prop (configurable config) ''thread_id'') (config_ns config) r"
proof (cases "truthy (opt_prop (configurable config) ''checkpoint_id'')")
  case True
  let ?P = "\<lambda>r. same_thread config r
                     \<and> opt_prop (configurable config) ''checkpoint_id'' = JStr (row_checkpoint_id r)"
  from assms True obtain row rest where
    f: "filter ?P T = row # rest"
    and t: "t = tuple_of_row sd (opt_prop (configurable config) ''thread_id'') (config_ns config) row"
    by (auto simp: getTuple_exact split: list.splits)
  have "row \<in> set (filter ?P T)" using f by simp
  then have "row \<in> set T" "?P row" by simp_all
  with True t show ?thesis by auto
next
  case False
  let ?xs = "filter (same_thread config) T"
  let ?row = "last (sort_key row_checkpoint_id ?xs)"
  from assms False have ne: "?xs \<noteq> []"
    and t: "t = tuple_of_row sd (opt_prop (configurable config) ''thread_id'') (config_ns config) ?row"
    by (auto simp: getTuple_latest split: if_splits)
  from last_sort_key_max [OF ne, of row_checkpoint_id]
  have "?row \<in> set ?xs" "\<forall>y \<in> set ?xs. row_checkpoint_id y \<le> row_checkpoint_id ?row"
    by blast+
  then have "?row \<in> set T" "same_thread config ?row"
    "\<forall>r' \<in> set T. same_thread config r' \<longrightarrow> row_checkpoint_id r' \<le> row_checkpoint_id ?row"
    by auto
  with False t show ?thesis by auto
qed

text \<open>
  C3, as the code has it. On a store of checkpoint rows \<open>getTuple\<close> never fails. With
  a checkpoint id that is given and not empty (a truthy value) it selects a row with
  exactly that thread id, namespace and checkpoint id; with a checkpoint id that is
  absent or empty it selects, among the rows of that thread id and namespace, one whose
  checkpoint id is lexically greatest. It returns no value exactly when no such row
  exists. The identity returned echoes the thread id and the namespace of the input (the
  empty namespace when none is given) with the checkpoint id of the row, and the parent
  identity is present exactly when the row has a parent checkpoint id that is not empty;
  it then carries that id.
\<close>

theorem getTuple_resolution:
  "(\<exists>found. fst (getTuple q (table_pool q T) sd config) = Inr found)
   \<and> (fst (getTuple q (table_pool q T) sd config) = Inr None \<longleftrightarrow>
        \<not> (\<exists>r \<in> set T. same_thread config r
              \<and> (truthy (opt_prop (configurable config) ''checkpoint_id'') \<longrightarrow>
                   opt_prop (configurable config) ''checkpoint_id'' = JStr (row_checkpoint_id r))))
   \<and> (\<forall>t. fst (getTuple q (table_pool q T) sd config) = Inr (Some t) \<longrightarrow>
        (\<exists>r \<in> set T. same_thread config r
           \<and> (if truthy (opt_prop (configurable config) ''checkpoint_id'')
              then opt_prop (configurable config) ''checkpoint_id'' = JStr (row_checkpoint_id r)
              else (\<forall>r' \<in> set T. same_thread config r' \<longrightarrow> row_checkpoint_id r' \<le> row_checkpoint_id r))
           \<and> tuple_config t =
               \<lparr>configurable = Some [(''thread_id'', opt_prop (configurable config) ''thread_id''),
                                      (''checkpoint_ns'', config_ns config),
                                      (''checkpoint_id'', JStr (row_checkpoint_id r))]\<rparr>
           \<and> tuple_parentConfig t =
               (case row_parent_checkpoint_id r of
                  None \<Rightarrow> None
                | Some parent \<Rightarrow>
                    if parent = [] then None
                    else Some \<lparr>configurable =
                                 Some [(''thread_id'', opt_prop (configurable config) ''thread_id''),
                                       (''checkpoint_ns'', config_ns config),
                                       (''checkpoint_id'', JStr parent)]\<rparr>)))"
proof (intro conjI allI impI)
  show "\<exists>found. fst (getTuple q (table_pool q T) sd config) = Inr found"
    by (rule getTuple_never_error)
  show "fst (getTuple q (table_pool q T) sd config) = Inr None \<longleftrightarrow>
        \<not> (\<exists>r \<in> set T. same_thread config r
              \<and> (truthy (opt_prop (configurable config) ''checkpoint_id'') \<longrightarrow>
                   opt_prop (configurable config) ''checkpoint_id'' = JStr (row_checkpoint_id r)))"
    by (rule getTuple_none_iff)
next
  fix t assume "fst (getTuple q (table_pool q T) sd config) = Inr (Some t)"
  from getTuple_some [OF this] obtain r where
    r: "r \<in> set T" "same_thread config r"
       "if truthy (opt_prop (configurable config) ''checkpoint_id'')
        then opt_prop (configurable config) ''checkpoint_id'' = JStr (row_checkpoint_id r)
        else (\<forall>r' \<in> set T. same_thread config r' \<longrightarrow> row_checkpoint_id r' \<le> row_checkpoint_id r)"
       "t = tuple_of_row sd (opt_prop (configurable config) ''thread_id'') (config_ns config) r"
    by blast
  have "tuple_config t =
               \<lparr>configurable = Some [(''thread_id'', opt_prop (configurable config) ''thread_id''),
                                      (''checkpoint_ns'', config_ns config),
                                      (''checkpoint_id'', JStr (row_checkpoint_id r))]\<rparr>"
    and "tuple_parentConfig t =
               (case row_parent_checkpoint_id r of
                  None \<Rightarrow> None
                | Some parent \<Rightarrow>
                    if parent = [] then None
                    else Some \<lparr>configurable =
                                 Some [(''thread_id'', opt_prop (configurable config) ''thread_id''),
                                       (''checkpoint_ns'', config_ns config),
                                       (''checkpoint_id'', JStr parent)]\<rparr>)"
    using r(4) by (simp_all add: tuple_of_row_def split: option.splits)
  with r(1,2,3) show "\<exists>r \<in> set T. same_thread config r
           \<and> (if truthy (opt_prop (configurable config) ''checkpoint_id'')
              then opt_prop (configurable config) ''checkpoint_id'' = JStr (row_checkpoint_id r)
              else (\<forall>r' \<in> set T. same_thread config r' \<longrightarrow> row_checkpoint_id r' \<le> row_checkpoint_id r))
           \<and> tuple_config t =
               \<lparr>configurable = Some [(''thread_id'', opt_prop (configurable config) ''thread_id''),
                                      (''checkpoint_ns'', config_ns config),
                                      (''checkpoint_id'', JStr (row_checkpoint_id r))]\<rparr>
           \<and> tuple_parentConfig t =
               (case row_parent_checkpoint_id r of
                  None \<Rightarrow> None
                | Some parent \<Rightarrow>
                    if parent = [] then None
                    else Some \<lparr>configurable =
                                 Some [(''thread_id'', opt_prop (configurable config) ''thread_id''),
                                       (''checkpoint_ns'', config_ns config),
                                       (''checkpoint_id'', JStr parent)]\<rparr>)"
    by blast
qed

text \<open>
  An empty checkpoint id is given, yet the latest row is selected, whose id is not the
  given one; and that row has a parent checkpoint id (the empty string), yet no parent
  identity is returned.
\<close>

theorem getTuple_empty_id_counterexample:
  "opt_prop (configurable \<lparr>configurable = Some [(''thread_id'', JStr ''t1''), (''checkpoint_id'', JStr '''')]\<rparr>)
      ''checkpoint_id'' = JStr ''''
   \<and> row_checkpoint_id example_row3 = ''c1''
   \<and> row_parent_checkpoint_id example_row3 = Some ''''
   \<and> fst (getTuple example_sql (table_pool example_sql [example_row3]) num_serde
        \<lparr>configurable = Some [(''thread_id'', JStr ''t1''), (''checkpoint_id'', JStr '''')]\<rparr>)
      = Inr (Some (tuple_of_row num_serde (JStr ''t1'') (JStr '''') example_row3))
   \<and> tuple_config (tuple_of_row num_serde (JStr ''t1'') (JStr '''') example_row3) =
       \<lparr>configurable = Some [(''thread_id'', JStr ''t1''), (''checkpoint_ns'', JStr ''''),
                              (''checkpoint_id'', JStr ''c1'')]\<rparr>
   \<and> tuple_parentConfig (tuple_of_row num_serde (JStr ''t1'') (JStr '''') example_row3) = None"
  by (simp add: getTuple_latest opt_prop_def get_prop_def config_ns_def same_thread_def sql_eq_def
        example_row3_def tuple_of_row_def)

theorem getTuple_resolution_witness:
  "fst (getTuple example_sql (table_pool example_sql [example_row2, example_row1]) num_serde
          \<lparr>configurable = Some [(''thread_id'', JStr ''t1'')]\<rparr>)
     = Inr (Some (tuple_of_row num_serde (JStr ''t1'') (JStr '''') example_row2))
   \<and> (\<exists>r \<in> set [example_row2, example_row1].
         (\<forall>r' \<in> set [example_row2, example_row1].
            same_thread \<lparr>configurable = Some [(''thread_id'', JStr ''t1'')]\<rparr> r' \<longrightarrow>
            row_checkpoint_id r' \<le> row_checkpoint_id r)
         \<and> tuple_config (tuple_of_row num_serde (JStr ''t1'') (JStr '''') example_row2) =
             \<lparr>configurable = Some [(''thread_id'', JStr ''t1''), (''checkpoint_ns'', JStr ''''),
                                    (''checkpoint_id'', JStr (row_checkpoint_id r))]\<rparr>)
   \<and> fst (getTuple example_sql (table_pool example_sql [example_row2, example_row1]) num_serde
          \<lparr>configurable = Some [(''thread_id'', JStr ''t1''), (''checkpoint_id'', JStr ''c1'')]\<rparr>)
     = Inr (Some (tuple_of_row num_serde (JStr ''t1'') (JStr '''') example_row1))
   \<and> fst (getTuple example_sql (table_pool example_sql [example_row2, example_row1]) num_serde
          \<lparr>configurable = Some [(''thread_id'', JStr ''t2'')]\<rparr>) = Inr None"
proof -
  let ?T = "[example_row2, example_row1]"
  let ?c = "\<lparr>configurable = Some [(''thread_id'', JStr ''t1'')]\<rparr>"
  let ?c1 = "\<lparr>configurable = Some [(''thread_id'', JStr ''t1''), (''checkpoint_id'', JStr ''c1'')]\<rparr>"
  let ?c2 = "\<lparr>configurable = Some [(''thread_id'', JStr ''t2'')]\<rparr>"
  have st: "same_thread ?c example_row1" "same_thread ?c example_row2"
     "same_thread ?c1 example_row1" "same_thread ?c1 example_row2"
     "\<not> same_thread ?c2 example_row1" "\<not> same_thread ?c2 example_row2"
    by (simp_all add: same_thread_def config_ns_def opt_prop_def get_prop_def sql_eq_def
          example_row1_def example_row2_def)
  have ids: "row_checkpoint_id example_row1 = ''c1''" "row_checkpoint_id example_row2 = ''c2''"
    by (simp_all add: example_row1_def example_row2_def)
  have le: "''c1'' \<le> ''c2''" "\<not> ''c2'' \<le> ''c1''"
    by simp_all
  have cid: "\<not> truthy (opt_prop (configurable ?c) ''checkpoint_id'')"
    "truthy (opt_prop (configurable ?c1) ''checkpoint_id'')"
    "opt_prop (configurable ?c1) ''checkpoint_id'' = JStr ''c1''"
    "\<not> truthy (opt_prop (configurable ?c2) ''checkpoint_id'')"
    "opt_prop (configurable ?c) ''thread_id'' = JStr ''t1''"
    "opt_prop (configurable ?c1) ''thread_id'' = JStr ''t1''"
    "config_ns ?c = JStr ''''" "config_ns ?c1 = JStr ''''"
    by (simp_all add: opt_prop_def get_prop_def config_ns_def)
  note res = getTuple_resolution [of example_sql ?T num_serde]
  have ev: "fst (getTuple example_sql (table_pool example_sql ?T) num_serde ?c)
     = Inr (Some (tuple_of_row num_serde (JStr ''t1'') (JStr '''') example_row2))"
    using st cid ids le
    by (simp add: getTuple_latest)
  have ev1: "fst (getTuple example_sql (table_pool example_sql ?T) num_serde ?c1)
     = Inr (Some (tuple_of_row num_serde (JStr ''t1'') (JStr '''') example_row1))"
    using st cid ids by (simp add: getTuple_exact)
  have ev2: "fst (getTuple example_sql (table_pool example_sql ?T) num_serde ?c2) = Inr None"
    using res [of ?c2] st cid by auto
  from res [of ?c] ev cid obtain r where
    r: "r \<in> set ?T" "\<forall>r' \<in> set ?T. same_thread ?c r' \<longrightarrow> row_checkpoint_id r' \<le> row_checkpoint_id r"
      "tuple_config (tuple_of_row num_serde (JStr ''t1'') (JStr '''') example_row2) =
         \<lparr>configurable = Some [(''thread_id'', JStr ''t1''), (''checkpoint_ns'', JStr ''''),
                                (''checkpoint_id'', JStr (row_checkpoint_id r))]\<rparr>"
    by auto
  with ev ev1 ev2 show ?thesis by blast
qed

end
